theory Spec2Isabelle
  imports Complex_Main "HOL-Library.Product_Lexorder" "HOL-Library.Multiset"
begin

section \<open>FsMeshQC: per-triangle quality metrics of a surface mesh\<close>

text \<open>
  The development embeds the numeric core of FsMeshQC
  (\<^verbatim>\<open>utils/geometric_calculation.py\<close>, \<^verbatim>\<open>utils/meshQuality.py\<close>), the
  bad-face export of \<^verbatim>\<open>utils/saveResults.py\<close> and the control flow of
  \<^verbatim>\<open>main.py\<close>.

  Numbers. A finite float64 is read as the real number it denotes and the arithmetic of
  numpy on finite values as exact real arithmetic: rounding is outside the model. The
  IEEE special values are kept where the code produces or tests them
  (\<^verbatim>\<open>np.inf\<close>, \<^verbatim>\<open>np.isfinite\<close>, comparisons with NaN): type \<open>fp\<close>. Overflow is
  treated apart: the functions with suffix \<open>_f64\<close> read the same code with operations
  that leave the range of float64 for the infinities.

  Arrays. A numpy array of shape \<open>(M,)\<close> is a list, an \<open>(M,3)\<close> array a list of
  triples. Exceptions are values of type \<open>py_error\<close>, returned on the left of a sum.
\<close>

subsection \<open>Values and errors\<close>

datatype fp = Finite real | PInf | NInf | NaN

datatype py_error = IndexError | ValueError | KeyError | TypeError

text \<open>\<^verbatim>\<open>x < y\<close> on float64: false as soon as one side is NaN.\<close>

fun fp_less :: "fp \<Rightarrow> fp \<Rightarrow> bool" where
  "fp_less NaN _ = False"
| "fp_less _ NaN = False"
| "fp_less (Finite x) (Finite y) = (x < y)"
| "fp_less (Finite x) PInf = True"
| "fp_less (Finite x) NInf = False"
| "fp_less PInf _ = False"
| "fp_less NInf NInf = False"
| "fp_less NInf _ = True"

fun isfinite :: "fp \<Rightarrow> bool" where
  "isfinite (Finite x) = True"
| "isfinite _ = False"

fun the_real :: "fp \<Rightarrow> real" where
  "the_real (Finite x) = x"
| "the_real _ = 0"

subsection \<open>Boolean-mask indexing\<close>

text \<open>
  \<^verbatim>\<open>a[msk]\<close> with a boolean \<open>mask\<close>: the entries of \<open>a\<close> where the mask holds, in
  order. numpy raises IndexError when the two lengths differ.
\<close>

fun select :: "'a list \<Rightarrow> bool list \<Rightarrow> 'a list" where
  "select (x # xs) (m # ms) = (if m then x # select xs ms else select xs ms)"
| "select _ _ = []"

definition bool_index :: "'a list \<Rightarrow> bool list \<Rightarrow> py_error + 'a list" where
  "bool_index a msk =
     (if length msk = length a then Inr (select a msk) else Inl IndexError)"

text \<open>
  \<^verbatim>\<open>R[msk] = vals\<close>: the values are written, in order, to the positions where the mask
  holds. IndexError when mask and array differ in length; ValueError when the number of
  values is neither the number of selected positions nor one (a single value is
  broadcast).
\<close>

fun scatter :: "'a list \<Rightarrow> bool list \<Rightarrow> 'a list \<Rightarrow> 'a list" where
  "scatter (r # rs) (m # ms) vs =
     (if m then (case vs of [] \<Rightarrow> r # scatter rs ms [] | v # vs' \<Rightarrow> v # scatter rs ms vs')
      else r # scatter rs ms vs)"
| "scatter rs _ _ = rs"

fun fill :: "'a list \<Rightarrow> bool list \<Rightarrow> 'a \<Rightarrow> 'a list" where
  "fill (r # rs) (m # ms) v = (if m then v else r) # fill rs ms v"
| "fill rs _ _ = rs"

definition count_true :: "bool list \<Rightarrow> nat" where
  "count_true msk = length (filter (\<lambda>m. m) msk)"

definition bool_assign :: "'a list \<Rightarrow> bool list \<Rightarrow> 'a list \<Rightarrow> py_error + 'a list" where
  "bool_assign R msk vals =
     (if length msk \<noteq> length R then Inl IndexError
      else if length vals = count_true msk then Inr (scatter R msk vals)
      else if length vals = 1 then Inr (fill R msk (hd vals))
      else Inl ValueError)"

definition bool_assign_scalar :: "'a list \<Rightarrow> bool list \<Rightarrow> 'a \<Rightarrow> py_error + 'a list" where
  "bool_assign_scalar R msk v =
     (if length msk \<noteq> length R then Inl IndexError else Inr (fill R msk v))"

text \<open>Sequencing of computations that may raise.\<close>

definition bind_err :: "py_error + 'a \<Rightarrow> ('a \<Rightarrow> py_error + 'b) \<Rightarrow> py_error + 'b" where
  "bind_err m f = (case m of Inl e \<Rightarrow> Inl e | Inr x \<Rightarrow> f x)"

subsection \<open>geometric\_calculation.py\<close>

type_synonym vec3 = "real \<times> real \<times> real"

definition vsub :: "vec3 \<Rightarrow> vec3 \<Rightarrow> vec3" where
  "vsub u v = (case u of (ux, uy, uz) \<Rightarrow> case v of (vx, vy, vz) \<Rightarrow>
     (ux - vx, uy - vy, uz - vz))"

text \<open>\<^verbatim>\<open>np.linalg.norm(e, axis=1)\<close>, row by row.\<close>

definition norm3 :: "vec3 \<Rightarrow> real" where
  "norm3 u = (case u of (x, y, z) \<Rightarrow> sqrt (x * x + y * y + z * z))"

text \<open>\<^verbatim>\<open>np.cross\<close>, row by row.\<close>

definition cross :: "vec3 \<Rightarrow> vec3 \<Rightarrow> vec3" where
  "cross u v = (case u of (ux, uy, uz) \<Rightarrow> case v of (vx, vy, vz) \<Rightarrow>
     (uy * vz - uz * vy, uz * vx - ux * vz, ux * vy - uy * vx))"

text \<open>
  \<^verbatim>\<open>V[idx]\<close> with an integer index array: a negative index counts from the end, an index
  outside \<open>[-N, N)\<close> raises IndexError.
\<close>

definition row_at :: "'a list \<Rightarrow> int \<Rightarrow> py_error + 'a" where
  "row_at V i =
     (if 0 \<le> i \<and> i < int (length V) then Inr (V ! nat i)
      else if - int (length V) \<le> i \<and> i < 0 then Inr (V ! nat (int (length V) + i))
      else Inl IndexError)"

fun take_rows :: "'a list \<Rightarrow> int list \<Rightarrow> py_error + 'a list" where
  "take_rows V [] = Inr []"
| "take_rows V (i # is) =
     (case row_at V i of
        Inl e \<Rightarrow> Inl e
      | Inr v \<Rightarrow> (case take_rows V is of Inl e \<Rightarrow> Inl e | Inr vs \<Rightarrow> Inr (v # vs)))"

type_synonym face = "int \<times> int \<times> int"

type_synonym edges =
  "vec3 list \<times> vec3 list \<times> vec3 list \<times> real list \<times> real list \<times> real list"

definition triangle_edges :: "vec3 list \<Rightarrow> face list \<Rightarrow> py_error + edges" where
  "triangle_edges V F =
     bind_err (take_rows V (map (\<lambda>(i, j, k). i) F)) (\<lambda>v0.
     bind_err (take_rows V (map (\<lambda>(i, j, k). j) F)) (\<lambda>v1.
     bind_err (take_rows V (map (\<lambda>(i, j, k). k) F)) (\<lambda>v2.
       let e0 = map2 vsub v2 v1;
           e1 = map2 vsub v0 v2;
           e2 = map2 vsub v1 v0;
           a = map norm3 e0;
           b = map norm3 e1;
           c = map norm3 e2
       in Inr (e0, e1, e2, a, b, c))))"

text \<open>The two edge arrays come from one call of \<^verbatim>\<open>triangle_edges\<close> and have the same
  length \<open>M\<close>.\<close>

definition triangle_area_from_edges :: "vec3 list \<Rightarrow> vec3 list \<Rightarrow> real list" where
  "triangle_area_from_edges e2 e0 = map (\<lambda>cr. 0.5 * norm3 cr) (map2 cross e2 e0)"

text \<open>\<^verbatim>\<open>np.clip(x, lo, hi)\<close> is \<^verbatim>\<open>minimum(maximum(x, lo), hi)\<close>.\<close>

definition clip :: "real \<Rightarrow> real \<Rightarrow> real \<Rightarrow> real" where
  "clip x lo hi = min (max x lo) hi"

definition safe_acos :: "real \<Rightarrow> real" where
  "safe_acos x = arccos (clip x (-1.0) 1.0)"

definition degrees :: "real \<Rightarrow> real" where
  "degrees x = x * (180 / pi)"

text \<open>
  Element-wise operations on three arrays of one mesh. The arrays have the same length
  \<open>M\<close>; the division is the real one, its denominators being at least \<open>1e-15\<close> for edge
  lengths (which are never negative).
\<close>

definition zip3 :: "'a list \<Rightarrow> 'b list \<Rightarrow> 'c list \<Rightarrow> ('a \<times> 'b \<times> 'c) list" where
  "zip3 xs ys zs = zip xs (zip ys zs)"

definition eps15 :: real where
  "eps15 = 1 / 10 ^ 15"

definition triangle_angles :: "real list \<Rightarrow> real list \<Rightarrow> real list
    \<Rightarrow> real list \<times> real list \<times> real list" where
  "triangle_angles a b c =
     (let cosA = map (\<lambda>(a, b, c). (b * b + c * c - a * a) / (2.0 * b * c + eps15)) (zip3 a b c);
          cosB = map (\<lambda>(a, b, c). (c * c + a * a - b * b) / (2.0 * c * a + eps15)) (zip3 a b c);
          cosC = map (\<lambda>(a, b, c). (a * a + b * b - c * c) / (2.0 * a * b + eps15)) (zip3 a b c)
      in (map (\<lambda>x. degrees (safe_acos x)) cosA,
          map (\<lambda>x. degrees (safe_acos x)) cosB,
          map (\<lambda>x. degrees (safe_acos x)) cosC))"

text \<open>
  \<^verbatim>\<open>np.where(s > 0, area / s, 0.0)\<close>: the quotient is computed everywhere (a division by
  zero only warns) and kept where \<open>s > 0\<close>.
\<close>

definition triangle_inradius :: "real list \<Rightarrow> real list \<Rightarrow> real list \<Rightarrow> real list \<Rightarrow> real list" where
  "triangle_inradius area a b c =
     map (\<lambda>(area, a, b, c). let s = 0.5 * (a + b + c) in if s > 0 then area / s else 0.0)
       (zip area (zip3 a b c))"

definition eps20 :: real where
  "eps20 = 1 / 10 ^ 20"

definition triangle_circumradius :: "real list \<Rightarrow> real list \<Rightarrow> real list \<Rightarrow> real list
    \<Rightarrow> py_error + fp list" where
  "triangle_circumradius area a b c =
     (let R = map (\<lambda>_. Finite 0) area;
          msk = map (\<lambda>x. x > eps20) area
      in bind_err (bool_index a msk) (\<lambda>am.
         bind_err (bool_index b msk) (\<lambda>bm.
         bind_err (bool_index c msk) (\<lambda>cm.
         bind_err (bool_index area msk) (\<lambda>aream.
         bind_err (bool_assign R msk
            (map2 (\<lambda>abc ar. Finite (abc / (4.0 * ar)))
               (map2 (*) (map2 (*) am bm) cm) aream)) (\<lambda>R1.
         bool_assign_scalar R1 (map Not msk) PInf))))))"

subsection \<open>meshQuality.py\<close>

text \<open>The dictionary of named arrays returned by \<^verbatim>\<open>compute_mesh_quality\<close>.\<close>

record qdict =
  area :: "real list"
  edge_a :: "real list"
  edge_b :: "real list"
  edge_c :: "real list"
  min_edge :: "real list"
  max_edge :: "real list"
  angle_A :: "real list"
  angle_B :: "real list"
  angle_C :: "real list"
  min_angle :: "real list"
  max_angle :: "real list"
  shape_quality :: "real list"
  radius_ratio :: "real list"
  aspect_proxy :: "fp list"

text \<open>
  In \<^verbatim>\<open>rr[ok] = 2.0 * r_in[ok] / R_circ[ok]\<close> every selected circumradius is finite and
  positive (that is what \<open>ok\<close> says), so the quotient is the real one.
\<close>

definition compute_mesh_quality :: "vec3 list \<Rightarrow> face list \<Rightarrow> py_error + qdict" where
  "compute_mesh_quality V F =
     bind_err (triangle_edges V F) (\<lambda>(e0, e1, e2, a, b, c).
       let ar = triangle_area_from_edges e2 e0;
           ABC = triangle_angles a b c;
           A = fst ABC; B = fst (snd ABC); C = snd (snd ABC);
           denom = map (\<lambda>(a, b, c). a * a + b * b + c * c) (zip3 a b c);
           sq0 = map (\<lambda>_. 0) ar;
           msk = map (\<lambda>d. d > 0) denom
       in bind_err (bool_index ar msk) (\<lambda>arm.
          bind_err (bool_index denom msk) (\<lambda>denomm.
          bind_err (bool_assign sq0 msk
             (map2 (\<lambda>x d. (4.0 * sqrt 3.0 * x) / d) arm denomm)) (\<lambda>sq1.
          let sq = map (\<lambda>x. clip x 0.0 1.0) sq1;
              r_in = triangle_inradius ar a b c
          in bind_err (triangle_circumradius ar a b c) (\<lambda>R_circ.
             let rr0 = map (\<lambda>_. 0) ar;
                 ok = map (\<lambda>R. isfinite R \<and> fp_less (Finite 0) R) R_circ
             in bind_err (bool_index r_in ok) (\<lambda>rm.
                bind_err (bool_index R_circ ok) (\<lambda>Rm.
                bind_err (bool_assign rr0 ok
                   (map2 (\<lambda>r R. 2.0 * r / the_real R) rm Rm)) (\<lambda>rr1.
                let rr = map (\<lambda>x. clip x 0.0 1.0) rr1
                in Inr \<lparr>area = ar,
                     edge_a = a, edge_b = b, edge_c = c,
                     min_edge = map (\<lambda>(a, b, c). min a (min b c)) (zip3 a b c),
                     max_edge = map (\<lambda>(a, b, c). max a (max b c)) (zip3 a b c),
                     angle_A = A, angle_B = B, angle_C = C,
                     min_angle = map (\<lambda>(a, b, c). min a (min b c)) (zip3 A B C),
                     max_angle = map (\<lambda>(a, b, c). max a (max b c)) (zip3 A B C),
                     shape_quality = sq,
                     radius_ratio = rr,
                     aspect_proxy =
                       map (\<lambda>s. if s > 0 then Finite (1.0 / s) else PInf) sq\<rparr>))))))))"

text \<open>
  The values of a summary: the count is an integer, the statistics are floats. A Python
  dictionary keeps the order of insertion, so a dictionary is an association list.
\<close>

datatype jval = JInt int | JFloat real

type_synonym stats_dict = "(string \<times> jval) list"

definition mean :: "real list \<Rightarrow> real" where
  "mean x = sum_list x / real (length x)"

text \<open>\<^verbatim>\<open>np.median\<close>: the middle of the sorted values, the mean of the two middle ones
  when their number is even.\<close>

definition median :: "real list \<Rightarrow> real" where
  "median x =
     (let s = sort x; n = length s
      in if n mod 2 = 1 then s ! (n div 2)
         else (s ! (n div 2 - 1) + s ! (n div 2)) / 2)"

text \<open>\<^verbatim>\<open>np.percentile(x, q)\<close>, linear interpolation between the two nearest ranks
  (the default method), for a non-empty array.\<close>

definition percentile :: "real list \<Rightarrow> real \<Rightarrow> real" where
  "percentile x q =
     (let s = sort x; n = length s;
          h = (q / 100) * real (n - 1);
          lo = nat \<lfloor>h\<rfloor>;
          hi = min (lo + 1) (n - 1);
          g = h - real lo
      in s ! lo + g * (s ! hi - s ! lo))"

text \<open>\<^verbatim>\<open>np.min\<close> and \<^verbatim>\<open>np.max\<close> reduce a non-empty array with \<open>min\<close> and \<open>max\<close>.\<close>

definition stats :: "fp list \<Rightarrow> stats_dict" where
  "stats x0 =
     (let x = map the_real (filter isfinite x0)
      in if length x = 0 then [(''n'', JInt 0)]
         else [(''n'', JInt (int (length x))),
               (''mean'', JFloat (mean x)),
               (''median'', JFloat (median x)),
               (''p05'', JFloat (percentile x 5)),
               (''p25'', JFloat (percentile x 25)),
               (''p75'', JFloat (percentile x 75)),
               (''p95'', JFloat (percentile x 95)),
               (''min'', JFloat (fold min (tl x) (hd x))),
               (''max'', JFloat (fold max (tl x) (hd x)))])"

definition summarize_quality :: "qdict \<Rightarrow> (string \<times> stats_dict) list" where
  "summarize_quality q =
     [(''shape_quality'', stats (map Finite (shape_quality q))),
      (''radius_ratio'', stats (map Finite (radius_ratio q))),
      (''aspect_proxy'', stats (aspect_proxy q)),
      (''min_angle'', stats (map Finite (min_angle q))),
      (''max_angle'', stats (map Finite (max_angle q))),
      (''area'', stats (map Finite (area q))),
      (''min_edge'', stats (map Finite (min_edge q))),
      (''max_edge'', stats (map Finite (max_edge q)))]"

subsection \<open>The array code, triangle by triangle\<close>

text \<open>
  What the masked assignments of \<^verbatim>\<open>compute_mesh_quality\<close> and its helpers compute for
  one triangle of area \<open>x\<close> and edge lengths \<open>a\<close>, \<open>b\<close>, \<open>c\<close>; the array code is
  proved equal to these, entry by entry.
\<close>

definition sq_raw :: "real \<Rightarrow> real \<Rightarrow> real \<Rightarrow> real \<Rightarrow> real" where
  "sq_raw x a b c =
     (if a * a + b * b + c * c > 0 then (4.0 * sqrt 3.0 * x) / (a * a + b * b + c * c) else 0)"

definition inradius1 :: "real \<Rightarrow> real \<Rightarrow> real \<Rightarrow> real \<Rightarrow> real" where
  "inradius1 x a b c = (let s = 0.5 * (a + b + c) in if s > 0 then x / s else 0.0)"

definition circumradius1 :: "real \<Rightarrow> real \<Rightarrow> real \<Rightarrow> real \<Rightarrow> fp" where
  "circumradius1 x a b c = (if x > eps20 then Finite (a * b * c / (4.0 * x)) else PInf)"

definition rr_raw :: "real \<Rightarrow> real \<Rightarrow> real \<Rightarrow> real \<Rightarrow> real" where
  "rr_raw x a b c =
     (let R = circumradius1 x a b c
      in if isfinite R \<and> fp_less (Finite 0) R then 2.0 * inradius1 x a b c / the_real R
         else 0)"

subsection \<open>The code within the range of float64\<close>

text \<open>
  A second reading of the numeric core, for inputs whose intermediate values leave the
  range of float64. Every array holds values of type \<open>fp\<close>. An operation on finite
  values gives the exact result when it lies within the largest float64, and the
  infinity of its sign otherwise; on the special values it follows IEEE 754 (NaN
  propagates; \<open>\<infinity> - \<infinity>\<close>, \<open>0 \<times> \<infinity>\<close>, \<open>\<infinity> / \<infinity>\<close> and \<open>0 / 0\<close> are NaN). Rounding within
  the range and the sign of zero are not modelled. \<^verbatim>\<open>np.clip\<close>, \<^verbatim>\<open>np.min\<close> and
  \<^verbatim>\<open>np.max\<close> propagate NaN.
\<close>

definition max_f64 :: real where
  "max_f64 = (2 - 1 / 2 ^ 52) * 2 ^ 1023"

definition f64 :: "real \<Rightarrow> fp" where
  "f64 r = (if r > max_f64 then PInf else if r < - max_f64 then NInf else Finite r)"

fun fsgn :: "fp \<Rightarrow> int" where
  "fsgn (Finite x) = (if x > 0 then 1 else if x < 0 then -1 else 0)"
| "fsgn PInf = 1"
| "fsgn NInf = -1"
| "fsgn NaN = 0"

fun fneg :: "fp \<Rightarrow> fp" where
  "fneg (Finite x) = Finite (- x)"
| "fneg PInf = NInf"
| "fneg NInf = PInf"
| "fneg NaN = NaN"

fun fadd :: "fp \<Rightarrow> fp \<Rightarrow> fp" where
  "fadd (Finite x) (Finite y) = f64 (x + y)"
| "fadd NaN _ = NaN"
| "fadd _ NaN = NaN"
| "fadd PInf NInf = NaN"
| "fadd NInf PInf = NaN"
| "fadd PInf _ = PInf"
| "fadd _ PInf = PInf"
| "fadd NInf _ = NInf"
| "fadd _ NInf = NInf"

definition fsub :: "fp \<Rightarrow> fp \<Rightarrow> fp" where
  "fsub x y = fadd x (fneg y)"

fun fmul :: "fp \<Rightarrow> fp \<Rightarrow> fp" where
  "fmul (Finite x) (Finite y) = f64 (x * y)"
| "fmul NaN _ = NaN"
| "fmul _ NaN = NaN"
| "fmul x y =
     (if fsgn x * fsgn y = 0 then NaN else if fsgn x * fsgn y > 0 then PInf else NInf)"

fun fdiv :: "fp \<Rightarrow> fp \<Rightarrow> fp" where
  "fdiv (Finite x) (Finite y) =
     (if y = 0 then (if x = 0 then NaN else if x > 0 then PInf else NInf) else f64 (x / y))"
| "fdiv NaN _ = NaN"
| "fdiv _ NaN = NaN"
| "fdiv (Finite x) _ = Finite 0"
| "fdiv x (Finite y) = (if fsgn x * (if y < 0 then -1 else 1) > 0 then PInf else NInf)"
| "fdiv _ _ = NaN"

fun fsqrt :: "fp \<Rightarrow> fp" where
  "fsqrt (Finite x) = (if x < 0 then NaN else Finite (sqrt x))"
| "fsqrt PInf = PInf"
| "fsqrt _ = NaN"

definition fmaximum :: "fp \<Rightarrow> fp \<Rightarrow> fp" where
  "fmaximum x y = (if x = NaN \<or> y = NaN then NaN else if fp_less x y then y else x)"

definition fminimum :: "fp \<Rightarrow> fp \<Rightarrow> fp" where
  "fminimum x y = (if x = NaN \<or> y = NaN then NaN else if fp_less y x then y else x)"

definition fclip :: "fp \<Rightarrow> fp \<Rightarrow> fp \<Rightarrow> fp" where
  "fclip x lo hi = fminimum (fmaximum x lo) hi"

fun farccos :: "fp \<Rightarrow> fp" where
  "farccos (Finite x) = (if -1 \<le> x \<and> x \<le> 1 then Finite (arccos x) else NaN)"
| "farccos _ = NaN"

type_synonym fvec3 = "fp \<times> fp \<times> fp"

definition vsub_f64 :: "fvec3 \<Rightarrow> fvec3 \<Rightarrow> fvec3" where
  "vsub_f64 u v = (case u of (ux, uy, uz) \<Rightarrow> case v of (vx, vy, vz) \<Rightarrow>
     (fsub ux vx, fsub uy vy, fsub uz vz))"

definition norm3_f64 :: "fvec3 \<Rightarrow> fp" where
  "norm3_f64 u = (case u of (x, y, z) \<Rightarrow>
     fsqrt (fadd (fadd (fmul x x) (fmul y y)) (fmul z z)))"

definition cross_f64 :: "fvec3 \<Rightarrow> fvec3 \<Rightarrow> fvec3" where
  "cross_f64 u v = (case u of (ux, uy, uz) \<Rightarrow> case v of (vx, vy, vz) \<Rightarrow>
     (fsub (fmul uy vz) (fmul uz vy), fsub (fmul uz vx) (fmul ux vz),
      fsub (fmul ux vy) (fmul uy vx)))"

definition triangle_edges_f64 :: "fvec3 list \<Rightarrow> face list
    \<Rightarrow> py_error + (fvec3 list \<times> fvec3 list \<times> fvec3 list \<times> fp list \<times> fp list \<times> fp list)" where
  "triangle_edges_f64 V F =
     bind_err (take_rows V (map (\<lambda>(i, j, k). i) F)) (\<lambda>v0.
     bind_err (take_rows V (map (\<lambda>(i, j, k). j) F)) (\<lambda>v1.
     bind_err (take_rows V (map (\<lambda>(i, j, k). k) F)) (\<lambda>v2.
       let e0 = map2 vsub_f64 v2 v1;
           e1 = map2 vsub_f64 v0 v2;
           e2 = map2 vsub_f64 v1 v0;
           a = map norm3_f64 e0;
           b = map norm3_f64 e1;
           c = map norm3_f64 e2
       in Inr (e0, e1, e2, a, b, c))))"

definition triangle_area_from_edges_f64 :: "fvec3 list \<Rightarrow> fvec3 list \<Rightarrow> fp list" where
  "triangle_area_from_edges_f64 e2 e0 =
     map (\<lambda>cr. fmul (Finite 0.5) (norm3_f64 cr)) (map2 cross_f64 e2 e0)"

definition safe_acos_f64 :: "fp \<Rightarrow> fp" where
  "safe_acos_f64 x = farccos (fclip x (Finite (-1.0)) (Finite 1.0))"

definition degrees_f64 :: "fp \<Rightarrow> fp" where
  "degrees_f64 x = fmul x (Finite (180 / pi))"

definition cos_law_f64 :: "fp \<Rightarrow> fp \<Rightarrow> fp \<Rightarrow> fp" where
  "cos_law_f64 a b c =
     fdiv (fsub (fadd (fmul b b) (fmul c c)) (fmul a a))
          (fadd (fmul (fmul (Finite 2.0) b) c) (Finite eps15))"

definition triangle_angles_f64 :: "fp list \<Rightarrow> fp list \<Rightarrow> fp list
    \<Rightarrow> fp list \<times> fp list \<times> fp list" where
  "triangle_angles_f64 a b c =
     (let cosA = map (\<lambda>(a, b, c). cos_law_f64 a b c) (zip3 a b c);
          cosB = map (\<lambda>(a, b, c). cos_law_f64 b c a) (zip3 a b c);
          cosC = map (\<lambda>(a, b, c). cos_law_f64 c a b) (zip3 a b c)
      in (map (\<lambda>x. degrees_f64 (safe_acos_f64 x)) cosA,
          map (\<lambda>x. degrees_f64 (safe_acos_f64 x)) cosB,
          map (\<lambda>x. degrees_f64 (safe_acos_f64 x)) cosC))"

definition triangle_inradius_f64 :: "fp list \<Rightarrow> fp list \<Rightarrow> fp list \<Rightarrow> fp list \<Rightarrow> fp list" where
  "triangle_inradius_f64 ar a b c =
     map (\<lambda>(x, a, b, c). let s = fmul (Finite 0.5) (fadd (fadd a b) c)
                           in if fp_less (Finite 0) s then fdiv x s else Finite 0.0)
       (zip ar (zip3 a b c))"

definition triangle_circumradius_f64 :: "fp list \<Rightarrow> fp list \<Rightarrow> fp list \<Rightarrow> fp list
    \<Rightarrow> py_error + fp list" where
  "triangle_circumradius_f64 ar a b c =
     (let R = map (\<lambda>_. Finite 0) ar;
          msk = map (\<lambda>x. fp_less (Finite eps20) x) ar
      in bind_err (bool_index a msk) (\<lambda>am.
         bind_err (bool_index b msk) (\<lambda>bm.
         bind_err (bool_index c msk) (\<lambda>cm.
         bind_err (bool_index ar msk) (\<lambda>arm.
         bind_err (bool_assign R msk
            (map2 (\<lambda>abc x. fdiv abc (fmul (Finite 4.0) x))
               (map2 fmul (map2 fmul am bm) cm) arm)) (\<lambda>R1.
         bool_assign_scalar R1 (map Not msk) PInf))))))"

record qdict_f64 =
  f_area :: "fp list"
  f_edge_a :: "fp list"
  f_edge_b :: "fp list"
  f_edge_c :: "fp list"
  f_min_edge :: "fp list"
  f_max_edge :: "fp list"
  f_angle_A :: "fp list"
  f_angle_B :: "fp list"
  f_angle_C :: "fp list"
  f_min_angle :: "fp list"
  f_max_angle :: "fp list"
  f_shape_quality :: "fp list"
  f_radius_ratio :: "fp list"
  f_aspect_proxy :: "fp list"

definition compute_mesh_quality_f64 :: "fvec3 list \<Rightarrow> face list \<Rightarrow> py_error + qdict_f64" where
  "compute_mesh_quality_f64 V F =
     bind_err (triangle_edges_f64 V F) (\<lambda>(e0, e1, e2, a, b, c).
       let ar = triangle_area_from_edges_f64 e2 e0;
           ABC = triangle_angles_f64 a b c;
           A = fst ABC; B = fst (snd ABC); C = snd (snd ABC);
           denom = map (\<lambda>(a, b, c). fadd (fadd (fmul a a) (fmul b b)) (fmul c c)) (zip3 a b c);
           sq0 = map (\<lambda>_. Finite 0) ar;
           msk = map (\<lambda>d. fp_less (Finite 0) d) denom
       in bind_err (bool_index ar msk) (\<lambda>arm.
          bind_err (bool_index denom msk) (\<lambda>denomm.
          bind_err (bool_assign sq0 msk
             (map2 (\<lambda>x d. fdiv (fmul (fmul (Finite 4.0) (fsqrt (Finite 3.0))) x) d)
                arm denomm)) (\<lambda>sq1.
          let sq = map (\<lambda>x. fclip x (Finite 0.0) (Finite 1.0)) sq1;
              r_in = triangle_inradius_f64 ar a b c
          in bind_err (triangle_circumradius_f64 ar a b c) (\<lambda>R_circ.
             let rr0 = map (\<lambda>_. Finite 0) ar;
                 ok = map (\<lambda>R. isfinite R \<and> fp_less (Finite 0) R) R_circ
             in bind_err (bool_index r_in ok) (\<lambda>rm.
                bind_err (bool_index R_circ ok) (\<lambda>Rm.
                bind_err (bool_assign rr0 ok
                   (map2 (\<lambda>r R. fdiv (fmul (Finite 2.0) r) R) rm Rm)) (\<lambda>rr1.
                let rr = map (\<lambda>x. fclip x (Finite 0.0) (Finite 1.0)) rr1
                in Inr \<lparr>f_area = ar,
                     f_edge_a = a, f_edge_b = b, f_edge_c = c,
                     f_min_edge = map (\<lambda>(a, b, c). fminimum (fminimum a b) c) (zip3 a b c),
                     f_max_edge = map (\<lambda>(a, b, c). fmaximum (fmaximum a b) c) (zip3 a b c),
                     f_angle_A = A, f_angle_B = B, f_angle_C = C,
                     f_min_angle = map (\<lambda>(a, b, c). fminimum (fminimum a b) c) (zip3 A B C),
                     f_max_angle = map (\<lambda>(a, b, c). fmaximum (fmaximum a b) c) (zip3 A B C),
                     f_shape_quality = sq,
                     f_radius_ratio = rr,
                     f_aspect_proxy =
                       map (\<lambda>s. if fp_less (Finite 0) s then fdiv (Finite 1.0) s else PInf)
                         sq\<rparr>))))))))"

subsection \<open>Paths\<close>

text \<open>
  \<^verbatim>\<open>pathlib.Path\<close> on a POSIX system: a path is a root (empty, one slash or two
  slashes) and its components. Parsing drops empty components and the component that
  is a single dot. A string is a list of bytes; the separator and the dot are ASCII, so
  the UTF-8 bytes of any other character are carried along unchanged.
\<close>

record ppath =
  p_root :: string
  p_parts :: "string list"

text \<open>\<^verbatim>\<open>s.split(sep)\<close>: the pieces between the separators, empty ones included.\<close>

fun split_on :: "char \<Rightarrow> string \<Rightarrow> string list" where
  "split_on sep [] = [[]]"
| "split_on sep (ch # s) =
     (if ch = sep then [] # split_on sep s
      else (case split_on sep s of [] \<Rightarrow> [[ch]] | w # ws \<Rightarrow> (ch # w) # ws))"

definition Path :: "string \<Rightarrow> ppath" where
  "Path s =
     (let stripped = dropWhile (\<lambda>ch. ch = CHR ''/'') s;
          k = length s - length stripped;
          root = (if k = 0 then [] else if k = 2 then ''//'' else ''/'')
      in \<lparr>p_root = root,
          p_parts = filter (\<lambda>x. x \<noteq> [] \<and> x \<noteq> ''.'') (split_on CHR ''/'' stripped)\<rparr>)"

fun join_sep :: "string list \<Rightarrow> string" where
  "join_sep [] = []"
| "join_sep [x] = x"
| "join_sep (x # y # ys) = x @ ''/'' @ join_sep (y # ys)"

definition as_posix :: "ppath \<Rightarrow> string" where
  "as_posix p =
     (if p_root p = [] \<and> p_parts p = [] then ''.'' else p_root p @ join_sep (p_parts p))"

definition pname :: "ppath \<Rightarrow> string" where
  "pname p = (if p_parts p = [] then [] else last (p_parts p))"

text \<open>\<^verbatim>\<open>p.parent\<close>: the path without its last component (the directory of a file).\<close>

definition parent :: "ppath \<Rightarrow> ppath" where
  "parent p = p\<lparr>p_parts := butlast (p_parts p)\<rparr>"

text \<open>A component as parsing leaves it: not empty, not a single dot, without separator.\<close>

definition good_part :: "string \<Rightarrow> bool" where
  "good_part x = (x \<noteq> [] \<and> x \<noteq> ''.'' \<and> CHR ''/'' \<notin> set x)"

text \<open>\<^verbatim>\<open>s.rfind(ch)\<close>: the last position of the character, if it occurs.\<close>

fun find_first :: "char \<Rightarrow> string \<Rightarrow> nat option" where
  "find_first ch [] = None"
| "find_first ch (x # xs) = (if x = ch then Some 0 else map_option Suc (find_first ch xs))"

definition rfind :: "char \<Rightarrow> string \<Rightarrow> nat option" where
  "rfind ch s = map_option (\<lambda>k. length s - 1 - k) (find_first ch (rev s))"

text \<open>The suffix of a file name starts at its last dot, unless that dot is the first or
  the last character.\<close>

definition suffix_of :: "string \<Rightarrow> string" where
  "suffix_of nm =
     (case rfind CHR ''.'' nm of
        None \<Rightarrow> []
      | Some i \<Rightarrow> if 0 < i \<and> i + 1 < length nm then drop i nm else [])"

text \<open>\<^verbatim>\<open>p.with_suffix("")\<close>: ValueError for a path with an empty name; otherwise the
  suffix of the name is removed.\<close>

definition with_suffix_empty :: "ppath \<Rightarrow> py_error + ppath" where
  "with_suffix_empty p =
     (let nm = pname p
      in if nm = [] then Inl ValueError
         else let old_suffix = suffix_of nm;
                  nm' = (if old_suffix = [] then nm
                         else take (length nm - length old_suffix) nm)
              in Inr (p\<lparr>p_parts := butlast (p_parts p) @ [nm']\<rparr>))"

text \<open>\<^verbatim>\<open>Path(x).with_suffix("").as_posix() + tail\<close>, the expression that names every
  output of the program.\<close>

definition prefixed :: "string \<Rightarrow> string \<Rightarrow> py_error + string" where
  "prefixed x tail =
     bind_err (with_suffix_empty (Path x)) (\<lambda>p. Inr (as_posix p @ tail))"

subsection \<open>saveResults.py\<close>

text \<open>A row of the per-face table \<^verbatim>\<open>faces_df\<close>.\<close>

record face_row =
  col_face_id :: nat
  col_v0 :: int
  col_v1 :: int
  col_v2 :: int
  col_area :: real
  col_edge_a :: real
  col_edge_b :: real
  col_edge_c :: real
  col_min_edge :: real
  col_max_edge :: real
  col_angle_A :: real
  col_angle_B :: real
  col_angle_C :: real
  col_min_angle :: real
  col_max_angle :: real
  col_shape_quality :: real
  col_radius_ratio :: real
  col_aspect_proxy :: fp

text \<open>\<^verbatim>\<open>pd.DataFrame\<close> of a dictionary of columns raises ValueError unless all columns
  have the same length.\<close>

definition faces_table :: "qdict \<Rightarrow> face list \<Rightarrow> py_error + face_row list" where
  "faces_table q F =
     (let M = length F
      in if length (area q) = M \<and> length (edge_a q) = M \<and> length (edge_b q) = M
            \<and> length (edge_c q) = M \<and> length (min_edge q) = M \<and> length (max_edge q) = M
            \<and> length (angle_A q) = M \<and> length (angle_B q) = M \<and> length (angle_C q) = M
            \<and> length (min_angle q) = M \<and> length (max_angle q) = M
            \<and> length (shape_quality q) = M \<and> length (radius_ratio q) = M
            \<and> length (aspect_proxy q) = M
         then Inr (map (\<lambda>i.
           \<lparr>col_face_id = i,
            col_v0 = fst (F ! i), col_v1 = fst (snd (F ! i)), col_v2 = snd (snd (F ! i)),
            col_area = area q ! i,
            col_edge_a = edge_a q ! i, col_edge_b = edge_b q ! i, col_edge_c = edge_c q ! i,
            col_min_edge = min_edge q ! i, col_max_edge = max_edge q ! i,
            col_angle_A = angle_A q ! i, col_angle_B = angle_B q ! i,
            col_angle_C = angle_C q ! i,
            col_min_angle = min_angle q ! i, col_max_angle = max_angle q ! i,
            col_shape_quality = shape_quality q ! i,
            col_radius_ratio = radius_ratio q ! i,
            col_aspect_proxy = aspect_proxy q ! i\<rparr>) [0..<M])
         else Inl ValueError)"

text \<open>
  The mask of the bad triangles, the same expression in \<^verbatim>\<open>main\<close> and in
  \<^verbatim>\<open>save_mesh_quality\<close>:
  \<^verbatim>\<open>(q["shape_quality"] < bad_sq_thresh) | (q["min_angle"] < bad_angle_thresh)\<close>.
  A threshold is any float the command line gives, NaN and the infinities included.
\<close>

definition bad_mask :: "real list \<Rightarrow> real list \<Rightarrow> fp \<Rightarrow> fp \<Rightarrow> bool list" where
  "bad_mask sq mina bad_sq_thresh bad_angle_thresh =
     map2 (\<lambda>x y. x \<or> y)
       (map (\<lambda>s. fp_less (Finite s) bad_sq_thresh) sq)
       (map (\<lambda>m. fp_less (Finite m) bad_angle_thresh) mina)"

text \<open>\<^verbatim>\<open>np.where(mask)[0]\<close>: the positions where the mask holds, ascending.\<close>

definition where_true :: "bool list \<Rightarrow> nat list" where
  "where_true msk = filter (\<lambda>i. msk ! i) [0..<length msk]"

text \<open>
  What a run writes: the name of each file with the table, bundle or summary put into
  it. Creating the directory and writing a file are left to the libraries and taken to
  succeed.
\<close>

datatype content =
    FacesCsv "face_row list"
  | FacesParquet "face_row list"
  | FacesNpz "face_row list"
  | SummaryJson "(string \<times> stats_dict) list"
  | BadFacesCsv "face_row list"

type_synonym written = "(string \<times> content) list"

text \<open>\<^verbatim>\<open>bad_df.sort_values(by=["shape_quality", "min_angle"])\<close>: ascending in the first
  column, ties broken by the second.\<close>

definition sort_values :: "face_row list \<Rightarrow> face_row list" where
  "sort_values rows = sort_key (\<lambda>r. (col_shape_quality r, col_min_angle r)) rows"

definition write_if :: "bool \<Rightarrow> string \<Rightarrow> string \<Rightarrow> content \<Rightarrow> written \<Rightarrow> py_error + written" where
  "write_if flag out_prefix tail c files =
     (if flag then bind_err (prefixed out_prefix tail) (\<lambda>fname. Inr (files @ [(fname, c)]))
      else Inr files)"

definition save_mesh_quality :: "qdict \<Rightarrow> face list \<Rightarrow> string \<Rightarrow> bool \<Rightarrow> bool \<Rightarrow> bool \<Rightarrow> bool
    \<Rightarrow> fp \<Rightarrow> fp \<Rightarrow> py_error + written" where
  "save_mesh_quality q F out_prefix save_csv save_parquet save_npz save_summary_json
       bad_sq_thresh bad_minangle_thresh =
     bind_err (faces_table q F) (\<lambda>faces_df.
     bind_err (write_if save_csv out_prefix ''_faces.csv'' (FacesCsv faces_df) []) (\<lambda>w1.
     bind_err (write_if save_parquet out_prefix ''_faces.parquet'' (FacesParquet faces_df) w1) (\<lambda>w2.
     bind_err (write_if save_npz out_prefix ''_faces.npz'' (FacesNpz faces_df) w2) (\<lambda>w3.
     bind_err (write_if save_summary_json out_prefix ''_summary.json''
                 (SummaryJson (summarize_quality q)) w3) (\<lambda>w4.
       let bad_idx = where_true
             (bad_mask (shape_quality q) (min_angle q) bad_sq_thresh bad_minangle_thresh)
       in if length bad_idx > 0
          then let bad_df = sort_values (map (\<lambda>i. faces_df ! i) bad_idx)
               in write_if True out_prefix ''_bad_faces.csv'' (BadFacesCsv bad_df) w4
          else Inr w4)))))"

subsection \<open>main.py\<close>

text \<open>
  The namespace \<^verbatim>\<open>parse_arguments\<close> returns. The option \<^verbatim>\<open>-i/--input_surf\<close> is
  declared without \<^verbatim>\<open>required=True\<close> and without a default, so it is \<open>None\<close> when the
  command line does not give it; so is \<^verbatim>\<open>-o/--output\<close>.
\<close>

record args =
  arg_input_surf :: "string option"
  arg_output :: "string option"
  arg_csv :: bool
  arg_parquet :: bool
  arg_npz :: bool
  arg_json :: bool
  arg_bad_sq_thresh :: fp
  arg_bad_angle_thresh :: fp
  arg_summary_only :: bool

text \<open>
  The world outside: which paths are regular files, and what the surface reader
  (\<^verbatim>\<open>read_freesurfer_surf\<close>, nibabel) returns or raises for a path.
\<close>

record env =
  isfile :: "string \<Rightarrow> bool"
  read_freesurfer_surf :: "string \<Rightarrow> py_error + (vec3 list \<times> face list)"

datatype message = InputNotFound string | ReadFailed py_error

text \<open>
  How a run ends: \<^verbatim>\<open>sys.exit(code)\<close> after an error message, an exception nobody
  catches (the interpreter prints the traceback and the process status is 1), or a
  normal return (status 0) with the printed number of bad triangles and the files
  written.
\<close>

datatype outcome = SysExit int message | Uncaught py_error | Returned nat written

fun exit_code :: "outcome \<Rightarrow> int" where
  "exit_code (SysExit n _) = n"
| "exit_code (Uncaught _) = 1"
| "exit_code (Returned _ _) = 0"

text \<open>\<^verbatim>\<open>d[k]\<close> on a dictionary: KeyError for a missing key.\<close>

definition getitem :: "('k \<times> 'v) list \<Rightarrow> 'k \<Rightarrow> py_error + 'v" where
  "getitem d k = (case map_of d k of None \<Rightarrow> Inl KeyError | Some v \<Rightarrow> Inr v)"

text \<open>The six numbers of the printed summary, looked up in the order the two f-strings
  evaluate them.\<close>

definition print_summary :: "(string \<times> stats_dict) list \<Rightarrow> py_error + jval list" where
  "print_summary summary =
     bind_err (getitem summary ''shape_quality'') (\<lambda>s.
     bind_err (getitem s ''median'') (\<lambda>x1.
     bind_err (getitem s ''mean'') (\<lambda>x2.
     bind_err (getitem s ''min'') (\<lambda>x3.
     bind_err (getitem summary ''min_angle'') (\<lambda>m.
     bind_err (getitem m ''median'') (\<lambda>y1.
     bind_err (getitem m ''mean'') (\<lambda>y2.
     bind_err (getitem m ''min'') (\<lambda>y3.
       Inr [x1, x2, x3, y1, y2, y3]))))))))"

text \<open>The default of the output prefix (lines 147 to 149).\<close>

definition default_output :: "string \<Rightarrow> py_error + string" where
  "default_output inp = prefixed inp ''_quality''"

definition uncaught :: "py_error + 'a \<Rightarrow> ('a \<Rightarrow> outcome) \<Rightarrow> outcome" where
  "uncaught m f = (case m of Inl e \<Rightarrow> Uncaught e | Inr x \<Rightarrow> f x)"

text \<open>
  \<^verbatim>\<open>os.path.isfile(None)\<close> raises TypeError (it catches OSError and ValueError only).
  The count of bad triangles, \<^verbatim>\<open>np.sum(bad_mask)\<close>, is printed with its percentage.
\<close>

definition main :: "env \<Rightarrow> args \<Rightarrow> outcome" where
  "main ev ag =
     (case arg_input_surf ag of
        None \<Rightarrow> Uncaught TypeError
      | Some inp \<Rightarrow>
          if \<not> isfile ev inp then SysExit 1 (InputNotFound inp)
          else uncaught (case arg_output ag of None \<Rightarrow> default_output inp | Some out \<Rightarrow> Inr out)
            (\<lambda>out.
              case read_freesurfer_surf ev inp of
                Inl e \<Rightarrow> SysExit 1 (ReadFailed e)
              | Inr (V, F) \<Rightarrow>
                  uncaught (compute_mesh_quality V F) (\<lambda>q.
                  uncaught (print_summary (summarize_quality q)) (\<lambda>_.
                    let bad_count = count_true
                          (bad_mask (shape_quality q) (min_angle q)
                             (arg_bad_sq_thresh ag) (arg_bad_angle_thresh ag))
                    in if arg_summary_only ag then Returned bad_count []
                       else uncaught
                         (save_mesh_quality q F out (arg_csv ag) (arg_parquet ag) (arg_npz ag)
                            (arg_json ag) (arg_bad_sq_thresh ag) (arg_bad_angle_thresh ag))
                         (Returned bad_count)))))"

subsection \<open>Meshes\<close>

text \<open>The invariant of a mesh: every index of a face is in \<open>[0, N)\<close>, \<open>N\<close> the number of
  vertices.\<close>

definition valid_faces :: "vec3 list \<Rightarrow> face list \<Rightarrow> bool" where
  "valid_faces V F =
     list_all (\<lambda>(i, j, k). 0 \<le> i \<and> i < int (length V) \<and> 0 \<le> j \<and> j < int (length V)
        \<and> 0 \<le> k \<and> k < int (length V)) F"


section \<open>Properties\<close>

subsection \<open>Boolean masks\<close>

lemma length_fill [simp]: "length (fill R m v) = length R"
  by (induction R m v rule: fill.induct) auto

lemma length_scatter [simp]: "length (scatter R m vs) = length R"
  by (induction R m vs rule: scatter.induct) (auto split: list.splits)

lemma nth_fill:
  "length m = length R \<Longrightarrow> i < length R \<Longrightarrow> fill R m v ! i = (if m ! i then v else R ! i)"
  by (induction R m v arbitrary: i rule: fill.induct) (auto simp: nth_Cons split: nat.splits)

lemma select_map: "select (map f xs) m = map f (select xs m)"
  by (induction xs m rule: select.induct) auto

lemma select_zip:
  "length xs = length ys \<Longrightarrow> select (zip xs ys) m = zip (select xs m) (select ys m)"
  by (induction xs ys arbitrary: m rule: list_induct2) (auto, (case_tac m; simp)+)

lemma length_select: "length xs = length m \<Longrightarrow> length (select xs m) = count_true m"
  by (induction xs m rule: select.induct) (auto simp: count_true_def)

lemma nth_scatter_select:
  "length R = length m \<Longrightarrow> length m = length xs \<Longrightarrow> i < length R \<Longrightarrow>
   scatter R m (select xs m) ! i = (if m ! i then xs ! i else R ! i)"
  by (induction R m xs arbitrary: i rule: list_induct3)
     (auto simp: nth_Cons split: nat.splits)

lemma map2_select:
  "length xs = length ys \<Longrightarrow>
   map2 f (select xs m) (select ys m) = select (map2 f xs ys) m"
  by (simp add: select_map select_zip)

text \<open>
  The pattern \<^verbatim>\<open>R = zeros; m = cond; R[m] = f(x[m], y[m])\<close> of the source computes
  \<open>f\<close> where the condition holds and leaves \<open>R\<close> elsewhere.
\<close>

lemma masked_update:
  assumes "length xs = length R" "length ys = length R" "length m = length R"
  shows "bind_err (bool_index xs m) (\<lambda>xm. bind_err (bool_index ys m) (\<lambda>ym.
           bind_err (bool_assign R m (map2 f xm ym)) k))
         = k (map (\<lambda>(r, c, x, y). if c then f x y else r) (zip R (zip m (zip xs ys))))"
proof -
  have sel: "map2 f (select xs m) (select ys m) = select (map2 f xs ys) m"
    using assms by (simp add: map2_select)
  have len: "length (select (map2 f xs ys) m) = count_true m"
    using assms by (simp add: length_select)
  have "scatter R m (select (map2 f xs ys) m)
      = map (\<lambda>(r, c, x, y). if c then f x y else r) (zip R (zip m (zip xs ys)))"
    using assms by (intro nth_equalityI) (auto simp: nth_scatter_select)
  then have asg: "bool_assign R m (select (map2 f xs ys) m)
      = Inr (map (\<lambda>(r, c, x, y). if c then f x y else r) (zip R (zip m (zip xs ys))))"
    using assms len by (simp add: bool_assign_def)
  have ix: "bool_index xs m = Inr (select xs m)" "bool_index ys m = Inr (select ys m)"
    using assms by (simp_all add: bool_index_def)
  show ?thesis
    unfolding ix bind_err_def sum.case sel asg ..
qed

subsection \<open>Circumradius\<close>

lemma triangle_circumradius_eq:
  assumes "length a = length ar" "length b = length ar" "length c = length ar"
  shows "triangle_circumradius ar a b c =
     Inr (map (\<lambda>(x, a, b, c). if x > eps20 then Finite (a * b * c / (4.0 * x)) else PInf)
            (zip ar (zip3 a b c)))"
proof -
  let ?m = "map (\<lambda>x. x > eps20) ar"
  let ?vals = "map2 (\<lambda>abc x. Finite (abc / (4.0 * x))) (map2 (*) (map2 (*) a b) c) ar"
  let ?R = "map (\<lambda>_. Finite 0) ar"
  have sel: "map2 (\<lambda>abc x. Finite (abc / (4.0 * x)))
               (map2 (*) (map2 (*) (select a ?m) (select b ?m)) (select c ?m)) (select ar ?m)
             = select ?vals ?m"
    using assms by (simp add: map2_select)
  have len: "length (select ?vals ?m) = count_true ?m"
    using assms by (simp add: length_select)
  have ix: "bool_index a ?m = Inr (select a ?m)" "bool_index b ?m = Inr (select b ?m)"
    "bool_index c ?m = Inr (select c ?m)" "bool_index ar ?m = Inr (select ar ?m)"
    using assms by (simp_all add: bool_index_def)
  have asg: "bool_assign ?R ?m (select ?vals ?m) = Inr (scatter ?R ?m (select ?vals ?m))"
    using len by (simp add: bool_assign_def)
  have fl: "bool_assign_scalar (scatter ?R ?m (select ?vals ?m)) (map Not ?m) PInf
      = Inr (fill (scatter ?R ?m (select ?vals ?m)) (map Not ?m) PInf)"
    by (simp add: bool_assign_scalar_def)
  have eq: "triangle_circumradius ar a b c
      = Inr (fill (scatter ?R ?m (select ?vals ?m)) (map Not ?m) PInf)"
    unfolding triangle_circumradius_def Let_def ix bind_err_def sum.case sel asg fl ..
  have "fill (scatter ?R ?m (select ?vals ?m)) (map Not ?m) PInf
      = map (\<lambda>(x, a, b, c). if x > eps20 then Finite (a * b * c / (4.0 * x)) else PInf)
          (zip ar (zip3 a b c))"
    using assms
    by (intro nth_equalityI) (auto simp: nth_fill nth_scatter_select zip3_def)
  with eq show ?thesis by simp
qed

text \<open>
  Claim C3. For every triangle \<open>t\<close> of the arrays, the circumradius is
  \<open>a b c / (4 area)\<close> when the area is strictly greater than \<open>1e-20\<close>, and the
  sentinel \<open>+\<infinity>\<close> (not NaN) when the area is at most \<open>1e-20\<close>; the function
  returns for any values of the arrays, degenerate triangles included: no exception.
\<close>

theorem circumradius_formula_or_infinity:
  assumes "length a = length ar" "length b = length ar" "length c = length ar"
  shows "\<exists>R. triangle_circumradius ar a b c = Inr R \<and> length R = length ar \<and>
     (\<forall>t < length ar.
        (eps20 < ar ! t \<longrightarrow> R ! t = Finite ((a ! t * b ! t * c ! t) / (4 * ar ! t))) \<and>
        (ar ! t \<le> eps20 \<longrightarrow> R ! t = PInf \<and> R ! t \<noteq> NaN))"
  using assms by (simp add: triangle_circumradius_eq zip3_def)

theorem circumradius_formula_or_infinity_witness:
  "triangle_circumradius [6, 0] [3, 0] [4, 1] [5, 1] = Inr [Finite (5 / 2), PInf]"
proof -
  obtain R where R: "triangle_circumradius [6, 0] [3, 0] [4, 1] [5, 1] = Inr R"
    "length R = 2"
    "\<forall>t < 2. (eps20 < [6, 0::real] ! t \<longrightarrow>
        R ! t = Finite (([3, 0] ! t * [4, 1] ! t * [5, 1] ! t) / (4 * [6, 0] ! t))) \<and>
      ([6, 0::real] ! t \<le> eps20 \<longrightarrow> R ! t = PInf \<and> R ! t \<noteq> NaN)"
    using circumradius_formula_or_infinity [of "[3, 0]" "[6, 0]" "[4, 1]" "[5, 1]"] by auto
  from R(3) have "R ! 0 = Finite (5 / 2)" "R ! 1 = PInf"
    by (auto simp: eps20_def)
  with R(2) have "R = [Finite (5 / 2), PInf]"
    by (intro nth_equalityI) (auto simp: less_Suc_eq numeral_2_eq_2)
  with R(1) show ?thesis by simp
qed

subsection \<open>The quality dictionary, entry by entry\<close>

lemma take_rows_length: "take_rows V ks = Inr vs \<Longrightarrow> length vs = length ks"
  by (induction ks arbitrary: vs) (auto split: sum.splits)

lemma take_rows_nth:
  "take_rows V ks = Inr vs \<Longrightarrow> n < length ks \<Longrightarrow> row_at V (ks ! n) = Inr (vs ! n)"
  by (induction ks arbitrary: vs n) (auto split: sum.splits simp: nth_Cons split: nat.splits)

lemma take_rows_Inr:
  "(\<And>k. k \<in> set ks \<Longrightarrow> \<exists>v. row_at V k = Inr v) \<Longrightarrow> \<exists>vs. take_rows V ks = Inr vs"
proof (induction ks)
  case Nil
  then show ?case by simp
next
  case (Cons k ks)
  then obtain v where "row_at V k = Inr v" by auto
  moreover from Cons obtain vs where "take_rows V ks = Inr vs" by auto
  ultimately show ?case by simp
qed

lemma triangle_edges_lengths:
  assumes "triangle_edges V F = Inr (e0, e1, e2, a, b, c)"
  shows "length e0 = length F" "length e1 = length F" "length e2 = length F"
    "length a = length F" "length b = length F" "length c = length F"
  using assms
  by (auto simp: triangle_edges_def bind_err_def Let_def split: sum.splits
      dest!: take_rows_length)

lemma length_triangle_area [simp]:
  "length (triangle_area_from_edges e2 e0) = min (length e2) (length e0)"
  by (simp add: triangle_area_from_edges_def)

lemma length_triangle_inradius:
  "length a = n \<Longrightarrow> length b = n \<Longrightarrow> length c = n \<Longrightarrow> length ar = n \<Longrightarrow>
   length (triangle_inradius ar a b c) = n"
  by (simp add: triangle_inradius_def zip3_def)

lemma length_triangle_angles:
  "length a = n \<Longrightarrow> length b = n \<Longrightarrow> length c = n \<Longrightarrow>
   length (fst (triangle_angles a b c)) = n \<and>
   length (fst (snd (triangle_angles a b c))) = n \<and>
   length (snd (snd (triangle_angles a b c))) = n"
  by (simp add: triangle_angles_def zip3_def Let_def)

lemma compute_mesh_quality_eq:
  assumes E: "triangle_edges V F = Inr (e0, e1, e2, a, b, c)"
  shows "compute_mesh_quality V F =
    (let ar = triangle_area_from_edges e2 e0;
         ABC = triangle_angles a b c;
         A = fst ABC; B = fst (snd ABC); C = snd (snd ABC);
         sq = map (\<lambda>(x, a, b, c). clip (sq_raw x a b c) 0 1) (zip ar (zip3 a b c));
         rr = map (\<lambda>(x, a, b, c). clip (rr_raw x a b c) 0 1) (zip ar (zip3 a b c))
     in Inr \<lparr>area = ar,
             edge_a = a, edge_b = b, edge_c = c,
             min_edge = map (\<lambda>(a, b, c). min a (min b c)) (zip3 a b c),
             max_edge = map (\<lambda>(a, b, c). max a (max b c)) (zip3 a b c),
             angle_A = A, angle_B = B, angle_C = C,
             min_angle = map (\<lambda>(a, b, c). min a (min b c)) (zip3 A B C),
             max_angle = map (\<lambda>(a, b, c). max a (max b c)) (zip3 A B C),
             shape_quality = sq,
             radius_ratio = rr,
             aspect_proxy = map (\<lambda>s. if s > 0 then Finite (1.0 / s) else PInf) sq\<rparr>)"
proof -
  note L = triangle_edges_lengths [OF E]
  let ?ar = "triangle_area_from_edges e2 e0"
  let ?denom = "map (\<lambda>(a, b, c). a * a + b * b + c * c) (zip3 a b c)"
  have lar: "length ?ar = length F" using L by simp
  have ldn: "length ?denom = length F" using L by (simp add: zip3_def)
  have sqm: "bind_err (bool_index ?ar (map (\<lambda>d. d > 0) ?denom)) (\<lambda>xm.
       bind_err (bool_index ?denom (map (\<lambda>d. d > 0) ?denom)) (\<lambda>ym.
       bind_err (bool_assign (map (\<lambda>_. 0) ?ar) (map (\<lambda>d. d > 0) ?denom)
          (map2 (\<lambda>x d. (4.0 * sqrt 3.0 * x) / d) xm ym)) k))
     = k (map (\<lambda>(x, a, b, c). sq_raw x a b c) (zip ?ar (zip3 a b c)))"
    for k :: "real list \<Rightarrow> py_error + qdict"
  proof -
    have "map (\<lambda>(r, c, x, y). if c then (4.0 * sqrt 3.0 * x) / y else r)
            (zip (map (\<lambda>_. 0) ?ar) (zip (map (\<lambda>d. d > 0) ?denom) (zip ?ar ?denom)))
        = map (\<lambda>(x, a, b, c). sq_raw x a b c) (zip ?ar (zip3 a b c))"
      using L lar ldn by (intro nth_equalityI) (auto simp: zip3_def sq_raw_def)
    then show ?thesis
      using masked_update [of ?ar "map (\<lambda>_. 0) ?ar" ?denom "map (\<lambda>d. d > 0) ?denom"
          "\<lambda>x d. (4.0 * sqrt 3.0 * x) / d" k] lar ldn
      by simp
  qed
  let ?Rc = "map (\<lambda>(x, a, b, c). circumradius1 x a b c) (zip ?ar (zip3 a b c))"
  let ?rin = "triangle_inradius ?ar a b c"
  let ?ok = "map (\<lambda>R. isfinite R \<and> fp_less (Finite 0) R) ?Rc"
  have circ: "triangle_circumradius ?ar a b c = Inr ?Rc"
    using L lar by (simp add: triangle_circumradius_eq circumradius1_def)
  have lrin: "length ?rin = length F"
    using L lar by (simp add: length_triangle_inradius)
  have lRc: "length ?Rc = length F" using L lar by (simp add: zip3_def)
  have rrm: "bind_err (bool_index ?rin ?ok) (\<lambda>rm.
       bind_err (bool_index ?Rc ?ok) (\<lambda>Rm.
       bind_err (bool_assign (map (\<lambda>_. 0) ?ar) ?ok
          (map2 (\<lambda>r R. 2.0 * r / the_real R) rm Rm)) k))
     = k (map (\<lambda>(x, a, b, c). rr_raw x a b c) (zip ?ar (zip3 a b c)))"
    for k :: "real list \<Rightarrow> py_error + qdict"
  proof -
    have "map (\<lambda>(r, c, x, y). if c then 2.0 * x / the_real y else r)
            (zip (map (\<lambda>_. 0) ?ar) (zip ?ok (zip ?rin ?Rc)))
        = map (\<lambda>(x, a, b, c). rr_raw x a b c) (zip ?ar (zip3 a b c))"
      using L lar lrin lRc
      by (intro nth_equalityI)
         (auto simp: zip3_def rr_raw_def triangle_inradius_def inradius1_def Let_def)
    then show ?thesis
      using masked_update [of ?rin "map (\<lambda>_. 0) ?ar" ?Rc ?ok
          "\<lambda>r R. 2.0 * r / the_real R" k] lar lrin lRc
      by simp
  qed
  have step0: "bind_err (Inr x) f = f x" for x :: 'x and f :: "'x \<Rightarrow> py_error + 'y"
    by (simp add: bind_err_def)
  show ?thesis
    unfolding compute_mesh_quality_def E step0 prod.case Let_def sqm circ rrm
    by (simp add: comp_def case_prod_unfold zip3_def)
qed

lemma row_at_valid: "0 \<le> i \<Longrightarrow> i < int (length V) \<Longrightarrow> row_at V i = Inr (V ! nat i)"
  by (simp add: row_at_def)

lemma triangle_edges_Inr:
  assumes "valid_faces V F"
  shows "\<exists>E. triangle_edges V F = Inr E"
proof -
  have v: "0 \<le> i \<and> i < int (length V) \<and> 0 \<le> j \<and> j < int (length V)
        \<and> 0 \<le> k \<and> k < int (length V)" if "(i, j, k) \<in> set F" for i j k
    using assms that by (auto simp: valid_faces_def list_all_iff)
  have "\<exists>w. row_at V x = Inr w" if "x \<in> set (map (\<lambda>(i, j, k). i) F)" for x
  proof -
    from that obtain i j k where "(i, j, k) \<in> set F" "x = i" by auto
    with v [of i j k] row_at_valid [of x V] show ?thesis by blast
  qed
  then obtain v0 where v0: "take_rows V (map (\<lambda>(i, j, k). i) F) = Inr v0"
    using take_rows_Inr [of "map (\<lambda>(i, j, k). i) F" V] by blast
  have "\<exists>w. row_at V x = Inr w" if "x \<in> set (map (\<lambda>(i, j, k). j) F)" for x
  proof -
    from that obtain i j k where "(i, j, k) \<in> set F" "x = j" by auto
    with v [of i j k] row_at_valid [of x V] show ?thesis by blast
  qed
  then obtain v1 where v1: "take_rows V (map (\<lambda>(i, j, k). j) F) = Inr v1"
    using take_rows_Inr [of "map (\<lambda>(i, j, k). j) F" V] by blast
  have "\<exists>w. row_at V x = Inr w" if "x \<in> set (map (\<lambda>(i, j, k). k) F)" for x
  proof -
    from that obtain i j k where "(i, j, k) \<in> set F" "x = k" by auto
    with v [of i j k] row_at_valid [of x V] show ?thesis by blast
  qed
  then obtain v2 where v2: "take_rows V (map (\<lambda>(i, j, k). k) F) = Inr v2"
    using take_rows_Inr [of "map (\<lambda>(i, j, k). k) F" V] by blast
  show ?thesis
    by (simp add: triangle_edges_def v0 v1 v2 bind_err_def Let_def)
qed


lemma compute_mesh_quality_Inr:
  assumes "valid_faces V F"
  shows "\<exists>q. compute_mesh_quality V F = Inr q"
proof -
  from triangle_edges_Inr [OF assms] obtain E where E: "triangle_edges V F = Inr E" ..
  obtain e0 e1 e2 a b c where "E = (e0, e1, e2, a, b, c)" by (cases E) auto
  with E have "triangle_edges V F = Inr (e0, e1, e2, a, b, c)" by simp
  from compute_mesh_quality_eq [OF this] show ?thesis by (simp only: Let_def) blast
qed

lemma compute_mesh_quality_cases:
  assumes "compute_mesh_quality V F = Inr q"
  obtains e0 e1 e2 a b c where "triangle_edges V F = Inr (e0, e1, e2, a, b, c)"
proof (cases "triangle_edges V F")
  case (Inl e)
  with assms show ?thesis by (simp add: compute_mesh_quality_def bind_err_def)
next
  case (Inr E)
  obtain e0 e1 e2 a b c where "E = (e0, e1, e2, a, b, c)" by (cases E) auto
  with Inr that show ?thesis by simp
qed

lemma clip_range: "lo \<le> hi \<Longrightarrow> lo \<le> clip x lo hi \<and> clip x lo hi \<le> hi"
  by (simp add: clip_def)


lemma quality_fields:
  assumes E: "triangle_edges V F = Inr (e0, e1, e2, a, b, c)"
    and Q: "compute_mesh_quality V F = Inr q"
  shows "area q = triangle_area_from_edges e2 e0"
    and "edge_a q = a" and "edge_b q = b" and "edge_c q = c"
    and "angle_A q = fst (triangle_angles a b c)"
    and "angle_B q = fst (snd (triangle_angles a b c))"
    and "angle_C q = snd (snd (triangle_angles a b c))"
    and "min_angle q = map (\<lambda>(a, b, c). min a (min b c)) (zip3 (angle_A q) (angle_B q) (angle_C q))"
    and "shape_quality q = map (\<lambda>(x, a, b, c). clip (sq_raw x a b c) 0 1)
           (zip (area q) (zip3 a b c))"
    and "radius_ratio q = map (\<lambda>(x, a, b, c). clip (rr_raw x a b c) 0 1)
           (zip (area q) (zip3 a b c))"
    and "aspect_proxy q = map (\<lambda>s. if s > 0 then Finite (1.0 / s) else PInf) (shape_quality q)"
proof -
  have "Inr q = compute_mesh_quality V F" using Q by simp
  also note compute_mesh_quality_eq [OF E]
  finally have q: "q = \<lparr>area = triangle_area_from_edges e2 e0,
             edge_a = a, edge_b = b, edge_c = c,
             min_edge = map (\<lambda>(a, b, c). min a (min b c)) (zip3 a b c),
             max_edge = map (\<lambda>(a, b, c). max a (max b c)) (zip3 a b c),
             angle_A = fst (triangle_angles a b c),
             angle_B = fst (snd (triangle_angles a b c)),
             angle_C = snd (snd (triangle_angles a b c)),
             min_angle = map (\<lambda>(a, b, c). min a (min b c))
               (zip3 (fst (triangle_angles a b c)) (fst (snd (triangle_angles a b c)))
                  (snd (snd (triangle_angles a b c)))),
             max_angle = map (\<lambda>(a, b, c). max a (max b c))
               (zip3 (fst (triangle_angles a b c)) (fst (snd (triangle_angles a b c)))
                  (snd (snd (triangle_angles a b c)))),
             shape_quality = map (\<lambda>(x, a, b, c). clip (sq_raw x a b c) 0 1)
               (zip (triangle_area_from_edges e2 e0) (zip3 a b c)),
             radius_ratio = map (\<lambda>(x, a, b, c). clip (rr_raw x a b c) 0 1)
               (zip (triangle_area_from_edges e2 e0) (zip3 a b c)),
             aspect_proxy = map (\<lambda>s. if s > 0 then Finite (1.0 / s) else PInf)
               (map (\<lambda>(x, a, b, c). clip (sq_raw x a b c) 0 1)
                  (zip (triangle_area_from_edges e2 e0) (zip3 a b c)))\<rparr>"
    unfolding Let_def sum.inject .
  show "area q = triangle_area_from_edges e2 e0"
    and "edge_a q = a" and "edge_b q = b" and "edge_c q = c"
    and "angle_A q = fst (triangle_angles a b c)"
    and "angle_B q = fst (snd (triangle_angles a b c))"
    and "angle_C q = snd (snd (triangle_angles a b c))"
    and "min_angle q = map (\<lambda>(a, b, c). min a (min b c)) (zip3 (angle_A q) (angle_B q) (angle_C q))"
    and "shape_quality q = map (\<lambda>(x, a, b, c). clip (sq_raw x a b c) 0 1)
           (zip (area q) (zip3 a b c))"
    and "radius_ratio q = map (\<lambda>(x, a, b, c). clip (rr_raw x a b c) 0 1)
           (zip (area q) (zip3 a b c))"
    and "aspect_proxy q = map (\<lambda>s. if s > 0 then Finite (1.0 / s) else PInf) (shape_quality q)"
    by (simp_all only: q qdict.simps)
qed


lemma quality_lengths:
  assumes Q: "compute_mesh_quality V F = Inr q"
  shows "length (area q) = length F" and "length (edge_a q) = length F"
    and "length (edge_b q) = length F" and "length (edge_c q) = length F"
    and "length (angle_A q) = length F" and "length (angle_B q) = length F"
    and "length (angle_C q) = length F" and "length (min_angle q) = length F"
    and "length (shape_quality q) = length F" and "length (radius_ratio q) = length F"
    and "length (aspect_proxy q) = length F"
proof -
  from Q obtain e0 e1 e2 a b c where E: "triangle_edges V F = Inr (e0, e1, e2, a, b, c)"
    by (rule compute_mesh_quality_cases)
  note L = triangle_edges_lengths [OF E]
  note f = quality_fields [OF E Q]
  note la = length_triangle_angles [OF L(4) L(5) L(6)]
  show 1: "length (area q) = length F" by (simp add: f(1) L)
  show "length (edge_a q) = length F" "length (edge_b q) = length F"
    "length (edge_c q) = length F" by (simp_all add: f L)
  show 5: "length (angle_A q) = length F" "length (angle_B q) = length F"
    "length (angle_C q) = length F" by (simp_all add: f la)
  show "length (min_angle q) = length F" by (simp add: f(8) 5 zip3_def)
  show 9: "length (shape_quality q) = length F" by (simp add: f(9) 1 L zip3_def)
  show "length (radius_ratio q) = length F" by (simp add: f(10) 1 L zip3_def)
  show "length (aspect_proxy q) = length F" by (simp add: f(11) 9)
qed

lemma quality_nth:
  assumes Q: "compute_mesh_quality V F = Inr q" and t: "t < length F"
  shows "shape_quality q ! t =
           clip (sq_raw (area q ! t) (edge_a q ! t) (edge_b q ! t) (edge_c q ! t)) 0 1"
    and "radius_ratio q ! t =
           clip (rr_raw (area q ! t) (edge_a q ! t) (edge_b q ! t) (edge_c q ! t)) 0 1"
    and "aspect_proxy q ! t =
           (if shape_quality q ! t > 0 then Finite (1 / shape_quality q ! t) else PInf)"
    and "min_angle q ! t = min (angle_A q ! t) (min (angle_B q ! t) (angle_C q ! t))"
proof -
  from Q obtain e0 e1 e2 a b c where E: "triangle_edges V F = Inr (e0, e1, e2, a, b, c)"
    by (rule compute_mesh_quality_cases)
  note L = quality_lengths [OF Q]
  note f = quality_fields [OF E Q]
  have abc: "edge_a q = a" "edge_b q = b" "edge_c q = c" by (fact f)+
  show "shape_quality q ! t =
           clip (sq_raw (area q ! t) (edge_a q ! t) (edge_b q ! t) (edge_c q ! t)) 0 1"
    using t L(1-4) unfolding abc by (subst f(9)) (simp add: zip3_def)
  show "radius_ratio q ! t =
           clip (rr_raw (area q ! t) (edge_a q ! t) (edge_b q ! t) (edge_c q ! t)) 0 1"
    using t L(1-4) unfolding abc by (subst f(10)) (simp add: zip3_def)
  show "aspect_proxy q ! t =
           (if shape_quality q ! t > 0 then Finite (1 / shape_quality q ! t) else PInf)"
    using t L(9) by (subst f(11)) simp
  show "min_angle q ! t = min (angle_A q ! t) (min (angle_B q ! t) (angle_C q ! t))"
    using t L(5-7) by (subst f(8)) (simp add: zip3_def)
qed

subsection \<open>Ranges of the quality scores\<close>

text \<open>
  In exact arithmetic, for every mesh with valid faces, degenerate triangles included,
  the quality dictionary is computed (no exception), and for every triangle the shape
  quality and the radius ratio lie in \<open>[0, 1]\<close> and the aspect proxy is \<open>+\<infinity>\<close> or a
  finite number that is at least 1. This says nothing about coordinates whose squares
  leave the range of float64: there the arithmetic of the code is not the exact one.
\<close>

theorem quality_ranges:
  assumes "valid_faces V F"
  shows "\<exists>q. compute_mesh_quality V F = Inr q \<and>
     length (shape_quality q) = length F \<and> length (radius_ratio q) = length F \<and>
     length (aspect_proxy q) = length F \<and>
     (\<forall>t < length F.
        0 \<le> shape_quality q ! t \<and> shape_quality q ! t \<le> 1 \<and>
        0 \<le> radius_ratio q ! t \<and> radius_ratio q ! t \<le> 1 \<and>
        (aspect_proxy q ! t = PInf \<or> (\<exists>r. aspect_proxy q ! t = Finite r \<and> 1 \<le> r)))"
proof -
  from compute_mesh_quality_Inr [OF assms] obtain q where Q: "compute_mesh_quality V F = Inr q" ..
  note L = quality_lengths [OF Q]
  have "0 \<le> shape_quality q ! t \<and> shape_quality q ! t \<le> 1 \<and>
        0 \<le> radius_ratio q ! t \<and> radius_ratio q ! t \<le> 1 \<and>
        (aspect_proxy q ! t = PInf \<or> (\<exists>r. aspect_proxy q ! t = Finite r \<and> 1 \<le> r))"
    if t: "t < length F" for t
  proof -
    note n = quality_nth [OF Q t]
    have s: "0 \<le> shape_quality q ! t \<and> shape_quality q ! t \<le> 1"
      unfolding n(1) by (rule clip_range) simp
    have r: "0 \<le> radius_ratio q ! t \<and> radius_ratio q ! t \<le> 1"
      unfolding n(2) by (rule clip_range) simp
    have "aspect_proxy q ! t = PInf \<or> (\<exists>r. aspect_proxy q ! t = Finite r \<and> 1 \<le> r)"
      using s by (simp add: n(3))
    with s r show ?thesis by blast
  qed
  with Q L(9-11) show ?thesis by blast
qed

theorem quality_ranges_witness:
  "\<exists>q. compute_mesh_quality [(0, 0, 0), (1, 0, 0), (0, 1, 0)] [(0, 1, 2)] = Inr q \<and>
     length (shape_quality q) = 1 \<and>
     0 \<le> shape_quality q ! 0 \<and> shape_quality q ! 0 \<le> 1 \<and>
     0 \<le> radius_ratio q ! 0 \<and> radius_ratio q ! 0 \<le> 1 \<and>
     (aspect_proxy q ! 0 = PInf \<or> (\<exists>r. aspect_proxy q ! 0 = Finite r \<and> 1 \<le> r))"
proof -
  have "valid_faces [(0, 0, 0), (1, 0, 0), (0, 1, 0)] [(0, 1, 2)]"
    by (simp add: valid_faces_def)
  from quality_ranges [OF this] show ?thesis by fastforce
qed

subsection \<open>Overflow\<close>

lemma huge_exceeds_max_f64: "(10::real) ^ 400 > max_f64" "(2 * 10 ^ 400 :: real) > max_f64"
  by (simp_all add: max_f64_def)

lemma f64_in_range: "\<bar>x\<bar> \<le> 10 ^ 200 \<Longrightarrow> f64 x = Finite x"
  by (auto simp: f64_def max_f64_def abs_le_iff)

lemma edges_on_overflow:
  "triangle_edges_f64 [(Finite 0, Finite 0, Finite 0), (Finite (10 ^ 200), Finite 0, Finite 0),
      (Finite 0, Finite (10 ^ 200), Finite 0)] [(0, 1, 2)]
   = Inr ([(Finite (- (10 ^ 200)), Finite (10 ^ 200), Finite 0)],
          [(Finite 0, Finite (- (10 ^ 200)), Finite 0)],
          [(Finite (10 ^ 200), Finite 0, Finite 0)],
          [PInf], [PInf], [PInf])"
  by (simp add: triangle_edges_f64_def bind_err_def row_at_def vsub_f64_def norm3_f64_def
      fsub_def f64_in_range f64_def max_f64_def)


lemma area_on_overflow:
  "triangle_area_from_edges_f64 [(Finite (10 ^ 200), Finite 0, Finite 0)]
      [(Finite (- (10 ^ 200)), Finite (10 ^ 200), Finite 0)] = [PInf]"
  by (simp add: triangle_area_from_edges_f64_def cross_f64_def norm3_f64_def fsub_def
      f64_def max_f64_def)

lemma cos_law_on_overflow: "cos_law_f64 PInf PInf PInf = NaN"
  by (simp add: cos_law_f64_def fsub_def)

lemma angles_on_overflow: "triangle_angles_f64 [PInf] [PInf] [PInf] = ([NaN], [NaN], [NaN])"
  by (simp add: triangle_angles_f64_def zip3_def cos_law_on_overflow safe_acos_f64_def fclip_def
      fmaximum_def fminimum_def degrees_f64_def)

lemma inradius_on_overflow: "triangle_inradius_f64 [PInf] [PInf] [PInf] [PInf] = [NaN]"
  by (simp add: triangle_inradius_f64_def zip3_def)

lemma circumradius_on_overflow: "triangle_circumradius_f64 [PInf] [PInf] [PInf] [PInf] = Inr [NaN]"
  by (simp add: triangle_circumradius_f64_def bool_index_def bool_assign_def
      bool_assign_scalar_def bind_err_def count_true_def)

lemma f64_four_sqrt3: "f64 (4 * sqrt 3) = Finite (4 * sqrt 3)"
proof -
  have "sqrt 3 \<le> sqrt 4" by (rule real_sqrt_le_mono) simp
  then have "4 * sqrt 3 \<le> 8" by simp
  then have "\<bar>4 * sqrt 3\<bar> \<le> 10 ^ 200" by simp
  then show ?thesis by (rule f64_in_range)
qed

text \<open>
  Claim C4. Every shape quality should lie in \<open>[0, 1]\<close> for any vertex array. For the
  triangle with vertices \<open>(0,0,0)\<close>, \<open>(1e200,0,0)\<close>, \<open>(0,1e200,0)\<close> the squares of the
  edge components overflow: the edge lengths, the area and the denominator are
  \<open>+\<infinity>\<close>, the quotient \<open>\<infinity> / \<infinity>\<close> is NaN, and the clip lets NaN through. The shape
  quality (and every angle) of that triangle is NaN.
\<close>

theorem shape_quality_nan_on_overflow:
  "compute_mesh_quality_f64
     [(Finite 0, Finite 0, Finite 0), (Finite (10 ^ 200), Finite 0, Finite 0),
      (Finite 0, Finite (10 ^ 200), Finite 0)] [(0, 1, 2)]
   = Inr \<lparr>f_area = [PInf], f_edge_a = [PInf], f_edge_b = [PInf], f_edge_c = [PInf],
          f_min_edge = [PInf], f_max_edge = [PInf],
          f_angle_A = [NaN], f_angle_B = [NaN], f_angle_C = [NaN],
          f_min_angle = [NaN], f_max_angle = [NaN],
          f_shape_quality = [NaN], f_radius_ratio = [Finite 0], f_aspect_proxy = [PInf]\<rparr>"
  unfolding compute_mesh_quality_f64_def edges_on_overflow bind_err_def sum.case prod.case Let_def
    area_on_overflow angles_on_overflow inradius_on_overflow circumradius_on_overflow
  by (simp add: f64_four_sqrt3
      bool_index_def bool_assign_def count_true_def zip3_def fclip_def fmaximum_def
      fminimum_def)

subsection \<open>Edges and angles, triangle by triangle\<close>

lemma triangle_edges_nth:
  assumes E: "triangle_edges V F = Inr (e0, e1, e2, a, b, c)"
    and t: "t < length F" and f: "F ! t = (i, j, k)"
  obtains v0 v1 v2 where "row_at V i = Inr v0" "row_at V j = Inr v1" "row_at V k = Inr v2"
    "e0 ! t = vsub v2 v1" "e1 ! t = vsub v0 v2" "e2 ! t = vsub v1 v0"
    "a ! t = norm3 (e0 ! t)" "b ! t = norm3 (e1 ! t)" "c ! t = norm3 (e2 ! t)"
proof -
  from E obtain r0 r1 r2 where
    r: "take_rows V (map (\<lambda>(i, j, k). i) F) = Inr r0"
       "take_rows V (map (\<lambda>(i, j, k). j) F) = Inr r1"
       "take_rows V (map (\<lambda>(i, j, k). k) F) = Inr r2"
    and e: "e0 = map2 vsub r2 r1" "e1 = map2 vsub r0 r2" "e2 = map2 vsub r1 r0"
       "a = map norm3 e0" "b = map norm3 e1" "c = map norm3 e2"
    by (auto simp: triangle_edges_def bind_err_def Let_def split: sum.splits)
  have l: "length r0 = length F" "length r1 = length F" "length r2 = length F"
    using r by (auto dest: take_rows_length)
  have "row_at V i = Inr (r0 ! t)" "row_at V j = Inr (r1 ! t)" "row_at V k = Inr (r2 ! t)"
    using take_rows_nth [OF r(1), of t] take_rows_nth [OF r(2), of t]
      take_rows_nth [OF r(3), of t] t f by simp_all
  moreover have "e0 ! t = vsub (r2 ! t) (r1 ! t)" "e1 ! t = vsub (r0 ! t) (r2 ! t)"
    "e2 ! t = vsub (r1 ! t) (r0 ! t)"
    using l t by (simp_all add: e)
  moreover have "a ! t = norm3 (e0 ! t)" "b ! t = norm3 (e1 ! t)" "c ! t = norm3 (e2 ! t)"
    using l t by (simp_all add: e)
  ultimately show ?thesis by (rule that)
qed

lemma triangle_angles_nth:
  assumes "length a = n" "length b = n" "length c = n" "t < n"
  shows "fst (triangle_angles a b c) ! t =
      degrees (safe_acos ((b ! t * b ! t + c ! t * c ! t - a ! t * a ! t) / (2.0 * b ! t * c ! t + eps15)))"
    and "fst (snd (triangle_angles a b c)) ! t =
      degrees (safe_acos ((c ! t * c ! t + a ! t * a ! t - b ! t * b ! t) / (2.0 * c ! t * a ! t + eps15)))"
    and "snd (snd (triangle_angles a b c)) ! t =
      degrees (safe_acos ((a ! t * a ! t + b ! t * b ! t - c ! t * c ! t) / (2.0 * a ! t * b ! t + eps15)))"
  using assms by (simp_all add: triangle_angles_def Let_def zip3_def)

lemma norm3_nonneg [simp]: "0 \<le> norm3 u"
  by (cases u) (simp add: norm3_def)

lemma quality_edges_nonneg:
  assumes Q: "compute_mesh_quality V F = Inr q" and t: "t < length F"
  shows "0 \<le> edge_a q ! t" "0 \<le> edge_b q ! t" "0 \<le> edge_c q ! t"
proof -
  from Q obtain e0 e1 e2 a b c where E: "triangle_edges V F = Inr (e0, e1, e2, a, b, c)"
    by (rule compute_mesh_quality_cases)
  obtain i j k where f: "F ! t = (i, j, k)" by (cases "F ! t") auto
  note fl = quality_fields [OF E Q]
  from triangle_edges_nth [OF E t f]
  show "0 \<le> edge_a q ! t" "0 \<le> edge_b q ! t" "0 \<le> edge_c q ! t"
    unfolding fl(2-4) by (metis norm3_nonneg)+
qed

lemma quality_angles_nth:
  assumes Q: "compute_mesh_quality V F = Inr q" and t: "t < length F"
  shows "angle_A q ! t = degrees (safe_acos
      ((edge_b q ! t * edge_b q ! t + edge_c q ! t * edge_c q ! t - edge_a q ! t * edge_a q ! t)
        / (2.0 * edge_b q ! t * edge_c q ! t + eps15)))"
    and "angle_B q ! t = degrees (safe_acos
      ((edge_c q ! t * edge_c q ! t + edge_a q ! t * edge_a q ! t - edge_b q ! t * edge_b q ! t)
        / (2.0 * edge_c q ! t * edge_a q ! t + eps15)))"
    and "angle_C q ! t = degrees (safe_acos
      ((edge_a q ! t * edge_a q ! t + edge_b q ! t * edge_b q ! t - edge_c q ! t * edge_c q ! t)
        / (2.0 * edge_a q ! t * edge_b q ! t + eps15)))"
proof -
  from Q obtain e0 e1 e2 a b c where E: "triangle_edges V F = Inr (e0, e1, e2, a, b, c)"
    by (rule compute_mesh_quality_cases)
  note L = triangle_edges_lengths [OF E]
  note fl = quality_fields [OF E Q]
  note n = triangle_angles_nth [OF L(4) L(5) L(6) t]
  show "angle_A q ! t = degrees (safe_acos
      ((edge_b q ! t * edge_b q ! t + edge_c q ! t * edge_c q ! t - edge_a q ! t * edge_a q ! t)
        / (2.0 * edge_b q ! t * edge_c q ! t + eps15)))"
    unfolding fl(2-4) fl(5) by (rule n)
  show "angle_B q ! t = degrees (safe_acos
      ((edge_c q ! t * edge_c q ! t + edge_a q ! t * edge_a q ! t - edge_b q ! t * edge_b q ! t)
        / (2.0 * edge_c q ! t * edge_a q ! t + eps15)))"
    unfolding fl(2-4) fl(6) by (rule n)
  show "angle_C q ! t = degrees (safe_acos
      ((edge_a q ! t * edge_a q ! t + edge_b q ! t * edge_b q ! t - edge_c q ! t * edge_c q ! t)
        / (2.0 * edge_a q ! t * edge_b q ! t + eps15)))"
    unfolding fl(2-4) fl(7) by (rule n)
qed

lemma degrees_safe_acos:
  "0 \<le> degrees (safe_acos x) \<and> degrees (safe_acos x) \<le> 180 \<and>
   cos (degrees (safe_acos x) * pi / 180) = clip x (-1) 1"
proof -
  have c: "-1 \<le> clip x (-1) 1" "clip x (-1) 1 \<le> 1" by (simp_all add: clip_def)
  have "0 \<le> arccos (clip x (-1) 1)" "arccos (clip x (-1) 1) \<le> pi"
    using c by (simp_all add: arccos_lbound arccos_ubound)
  moreover have "cos (arccos (clip x (-1) 1)) = clip x (-1) 1"
    using c by (simp add: cos_arccos)
  moreover have "degrees (safe_acos x) * pi / 180 = arccos (clip x (-1) 1)"
    by (simp add: degrees_def safe_acos_def)
  moreover have "degrees (safe_acos x) = arccos (clip x (-1) 1) * (180 / pi)"
    by (simp add: degrees_def safe_acos_def)
  ultimately show ?thesis
    by (simp add: pos_le_divide_eq mult.commute pos_divide_le_eq)
qed


lemma bad_mask_nth:
  "length mina = length sq \<Longrightarrow> t < length sq \<Longrightarrow>
   bad_mask sq mina t1 t2 ! t = (fp_less (Finite (sq ! t)) t1 \<or> fp_less (Finite (mina ! t)) t2)"
  by (simp add: bad_mask_def)

lemma length_bad_mask: "length mina = length sq \<Longrightarrow> length (bad_mask sq mina t1 t2) = length sq"
  by (simp add: bad_mask_def)

subsection \<open>Interior angles\<close>

text \<open>
  Claim C2. For every triangle \<open>t\<close> of a mesh, with \<open>a\<close>, \<open>b\<close>, \<open>c\<close> its edge lengths,
  the angle \<open>A\<close> is the inverse cosine, in degrees, of
  \<open>(b\<^sup>2 + c\<^sup>2 - a\<^sup>2) / (2bc + 1e-15)\<close> clipped to \<open>[-1, 1]\<close>, and cyclically for \<open>B\<close>
  and \<open>C\<close>. The denominators are positive, so each quotient is defined; each angle is
  the one in \<open>[0, 180]\<close> whose cosine is the clipped quotient.
\<close>

theorem angles_by_law_of_cosines:
  assumes "compute_mesh_quality V F = Inr q" and "t < length F"
  shows "let a = edge_a q ! t; b = edge_b q ! t; c = edge_c q ! t;
             cosA = (b * b + c * c - a * a) / (2 * b * c + 1 / 10 ^ 15);
             cosB = (c * c + a * a - b * b) / (2 * c * a + 1 / 10 ^ 15);
             cosC = (a * a + b * b - c * c) / (2 * a * b + 1 / 10 ^ 15)
         in 0 < 2 * b * c + 1 / 10 ^ 15 \<and> 0 < 2 * c * a + 1 / 10 ^ 15
            \<and> 0 < 2 * a * b + 1 / 10 ^ 15
            \<and> angle_A q ! t = arccos (clip cosA (-1) 1) * (180 / pi)
            \<and> angle_B q ! t = arccos (clip cosB (-1) 1) * (180 / pi)
            \<and> angle_C q ! t = arccos (clip cosC (-1) 1) * (180 / pi)
            \<and> cos (angle_A q ! t * pi / 180) = clip cosA (-1) 1
            \<and> cos (angle_B q ! t * pi / 180) = clip cosB (-1) 1
            \<and> cos (angle_C q ! t * pi / 180) = clip cosC (-1) 1
            \<and> 0 \<le> angle_A q ! t \<and> angle_A q ! t \<le> 180
            \<and> 0 \<le> angle_B q ! t \<and> angle_B q ! t \<le> 180
            \<and> 0 \<le> angle_C q ! t \<and> angle_C q ! t \<le> 180"
proof -
  note n = quality_angles_nth [OF assms]
  note p = quality_edges_nonneg [OF assms]
  have d: "0 < 2 * edge_b q ! t * edge_c q ! t + 1 / 10 ^ 15"
    "0 < 2 * edge_c q ! t * edge_a q ! t + 1 / 10 ^ 15"
    "0 < 2 * edge_a q ! t * edge_b q ! t + 1 / 10 ^ 15"
    using p by (simp_all add: add_nonneg_pos)
  have g: "degrees (safe_acos x) = arccos (clip x (-1) 1) * (180 / pi)"
    "cos (degrees (safe_acos x) * pi / 180) = clip x (-1) 1"
    "0 \<le> degrees (safe_acos x)" "degrees (safe_acos x) \<le> 180" for x
    using degrees_safe_acos [of x] by (simp_all add: degrees_def safe_acos_def)
  have A: "angle_A q ! t = degrees (safe_acos
      ((edge_b q ! t * edge_b q ! t + edge_c q ! t * edge_c q ! t - edge_a q ! t * edge_a q ! t)
        / (2 * edge_b q ! t * edge_c q ! t + 1 / 10 ^ 15)))"
    using n(1) by (simp add: eps15_def)
  have B: "angle_B q ! t = degrees (safe_acos
      ((edge_c q ! t * edge_c q ! t + edge_a q ! t * edge_a q ! t - edge_b q ! t * edge_b q ! t)
        / (2 * edge_c q ! t * edge_a q ! t + 1 / 10 ^ 15)))"
    using n(2) by (simp add: eps15_def)
  have C: "angle_C q ! t = degrees (safe_acos
      ((edge_a q ! t * edge_a q ! t + edge_b q ! t * edge_b q ! t - edge_c q ! t * edge_c q ! t)
        / (2 * edge_a q ! t * edge_b q ! t + 1 / 10 ^ 15)))"
    using n(3) by (simp add: eps15_def)
  show ?thesis
    unfolding Let_def A B C
    by (intro conjI d g)
qed


lemma sqrt_squares: "sqrt 25 = 5" "sqrt 16 = 4" "sqrt 9 = 3"
  by (rule real_sqrt_unique; simp)+

theorem angles_by_law_of_cosines_witness:
  "\<exists>q. compute_mesh_quality [(0, 0, 0), (3, 0, 0), (0, 4, 0)] [(0, 1, 2)] = Inr q \<and>
     edge_a q ! 0 = 5 \<and> edge_b q ! 0 = 4 \<and> edge_c q ! 0 = 3 \<and>
     angle_A q ! 0 = 90 \<and>
     cos (angle_B q ! 0 * pi / 180) = 18 / (30 + 1 / 10 ^ 15)"
proof -
  let ?V = "[(0, 0, 0), (3, 0, 0), (0, 4, 0)] :: vec3 list"
  let ?F = "[(0, 1, 2)] :: face list"
  have E: "triangle_edges ?V ?F = Inr ([(-3, 4, 0)], [(0, -4, 0)], [(3, 0, 0)], [5], [4], [3])"
    by (simp add: triangle_edges_def bind_err_def row_at_def vsub_def norm3_def sqrt_squares)
  have "valid_faces ?V ?F" by (simp add: valid_faces_def)
  then obtain q where Q: "compute_mesh_quality ?V ?F = Inr q"
    using compute_mesh_quality_Inr by blast
  note f = quality_fields [OF E Q]
  have e: "edge_a q ! 0 = 5" "edge_b q ! 0 = 4" "edge_c q ! 0 = 3"
    by (simp_all add: f)
  have t: "0 < length ?F" by simp
  from angles_by_law_of_cosines [OF Q t]
  have "angle_A q ! 0 = 90" "cos (angle_B q ! 0 * pi / 180) = 18 / (30 + 1 / 10 ^ 15)"
    unfolding Let_def e by (simp_all add: clip_def)
  with Q e show ?thesis by blast
qed


subsection \<open>A triangle collapsed to a point\<close>

lemma vsub_self: "vsub v v = (0, 0, 0)"
  by (cases v) (simp add: vsub_def)

lemma norm3_zero: "norm3 (0, 0, 0) = 0"
  by (simp add: norm3_def)

lemma degrees_safe_acos_zero: "degrees (safe_acos 0) = 90"
  by (simp add: degrees_def safe_acos_def clip_def arccos_0)

text \<open>
  Claim C10. For a triangle whose three vertices coincide, the three edge lengths are
  zero, each guarded cosine is \<open>0 / 1e-15 = 0\<close> and each interior angle is 90 degrees;
  the sum is 270, the minimal angle is 90 and the shape quality is 0. With the default
  thresholds \<open>(0.2, 10)\<close> the triangle is bad, and with the default angle threshold it
  is bad exactly when \<open>0\<close> is below the shape-quality threshold: the angle never flags
  it.
\<close>

theorem coincident_vertices_right_angles:
  assumes Q: "compute_mesh_quality V F = Inr q" and t: "t < length F"
    and f: "F ! t = (i, j, k)"
    and v: "row_at V i = Inr v" "row_at V j = Inr v" "row_at V k = Inr v"
  shows "edge_a q ! t = 0 \<and> edge_b q ! t = 0 \<and> edge_c q ! t = 0
    \<and> angle_A q ! t = 90 \<and> angle_B q ! t = 90 \<and> angle_C q ! t = 90
    \<and> angle_A q ! t + angle_B q ! t + angle_C q ! t = 270
    \<and> min_angle q ! t = 90
    \<and> shape_quality q ! t = 0
    \<and> \<not> fp_less (Finite (min_angle q ! t)) (Finite 10)
    \<and> fp_less (Finite (shape_quality q ! t)) (Finite 0.2)
    \<and> bad_mask (shape_quality q) (min_angle q) (Finite 0.2) (Finite 10) ! t
    \<and> (bad_mask (shape_quality q) (min_angle q) sq_thresh (Finite 10) ! t
         \<longleftrightarrow> fp_less (Finite 0) sq_thresh)"
proof -
  from Q obtain e0 e1 e2 a b c where E: "triangle_edges V F = Inr (e0, e1, e2, a, b, c)"
    by (rule compute_mesh_quality_cases)
  note fl = quality_fields [OF E Q]
  note L = quality_lengths [OF Q]
  from triangle_edges_nth [OF E t f] v
  have abc: "a ! t = 0" "b ! t = 0" "c ! t = 0"
    by (auto simp: vsub_self norm3_zero)
  then have e: "edge_a q ! t = 0" "edge_b q ! t = 0" "edge_c q ! t = 0"
    by (simp_all add: fl)
  note an = quality_angles_nth [OF Q t, unfolded e]
  have A: "angle_A q ! t = 90" "angle_B q ! t = 90" "angle_C q ! t = 90"
    by (simp_all add: an degrees_safe_acos_zero)
  note n = quality_nth [OF Q t]
  have m: "min_angle q ! t = 90" by (simp add: n(4) A)
  have s: "shape_quality q ! t = 0" by (simp add: n(1) e sq_raw_def clip_def)
  have bm: "bad_mask (shape_quality q) (min_angle q) t1 t2 ! t
      = (fp_less (Finite 0) t1 \<or> fp_less (Finite 90) t2)" for t1 t2
    using bad_mask_nth [of "min_angle q" "shape_quality q" t t1 t2] L t by (simp add: s m)
  show ?thesis
    by (simp add: e A m s bm)
qed

theorem coincident_vertices_right_angles_witness:
  "\<exists>q. compute_mesh_quality [(1, 2, 3)] [(0, 0, 0)] = Inr q
     \<and> angle_A q ! 0 = 90 \<and> angle_B q ! 0 = 90 \<and> angle_C q ! 0 = 90
     \<and> angle_A q ! 0 + angle_B q ! 0 + angle_C q ! 0 = 270
     \<and> min_angle q ! 0 = 90 \<and> shape_quality q ! 0 = 0
     \<and> bad_mask (shape_quality q) (min_angle q) (Finite 0.2) (Finite 10) ! 0
     \<and> \<not> bad_mask (shape_quality q) (min_angle q) (Finite 0) (Finite 10) ! 0"
proof -
  let ?V = "[(1, 2, 3)] :: vec3 list"
  let ?F = "[(0, 0, 0)] :: face list"
  have "valid_faces ?V ?F" by (simp add: valid_faces_def)
  then obtain q where Q: "compute_mesh_quality ?V ?F = Inr q"
    using compute_mesh_quality_Inr by blast
  have r: "row_at ?V 0 = Inr (1, 2, 3)" by (simp add: row_at_def)
  have "0 < length ?F" "?F ! 0 = (0, 0, 0)" by simp_all
  from coincident_vertices_right_angles [OF Q this r r r, of "Finite 0"] Q
  show ?thesis by auto
qed

subsection \<open>Area and the order of the vertices\<close>












subsection \<open>Classification of bad triangles\<close>

lemma set_where_true: "set (where_true m) = {t. t < length m \<and> m ! t}"
  by (auto simp: where_true_def)

lemma count_true_conv: "count_true m = length (where_true m)"
proof (induction m rule: rev_induct)
  case Nil
  then show ?case by (simp add: count_true_def where_true_def)
next
  case (snoc x m)
  have "filter (\<lambda>i. (m @ [x]) ! i) [0..<length m] = filter (\<lambda>i. m ! i) [0..<length m]"
    by (rule filter_cong) (auto simp: nth_append)
  with snoc show ?case
    by (simp add: count_true_def where_true_def)
qed

text \<open>
  Claim C1. For any thresholds, the triangles classified as bad (the positions the
  mask selects, counted by \<^verbatim>\<open>main\<close> and exported by \<^verbatim>\<open>save_mesh_quality\<close>) are
  exactly those whose shape quality is strictly below \<open>bad_sq_thresh\<close> or whose
  minimal angle is strictly below \<open>bad_angle_thresh\<close>; a triangle with shape quality
  0.15 and minimal angle 12 is bad under the default thresholds \<open>(0.2, 10.0)\<close>.
\<close>

theorem bad_iff_below_either_threshold:
  assumes "length mina = length sq"
  shows "set (where_true (bad_mask sq mina t1 t2))
       = {t. t < length sq \<and>
             (fp_less (Finite (sq ! t)) t1 \<or> fp_less (Finite (mina ! t)) t2)}
     \<and> count_true (bad_mask sq mina t1 t2) = length (where_true (bad_mask sq mina t1 t2))
     \<and> length (bad_mask sq mina t1 t2) = length sq
     \<and> bad_mask [0.15] [12] (Finite 0.2) (Finite 10.0) = [True]"
proof -
  have "set (where_true (bad_mask sq mina t1 t2))
       = {t. t < length sq \<and>
             (fp_less (Finite (sq ! t)) t1 \<or> fp_less (Finite (mina ! t)) t2)}"
    using assms by (auto simp: set_where_true length_bad_mask bad_mask_nth)
  moreover have "bad_mask [0.15] [12] (Finite 0.2) (Finite 10.0) = [True]"
    by (simp add: bad_mask_def)
  ultimately show ?thesis
    using assms by (simp add: count_true_conv length_bad_mask)
qed

theorem bad_iff_below_either_threshold_witness:
  "where_true (bad_mask [0.15, 0.5, 0.5, 0.1] [12, 5, 12, 3] (Finite 0.2) (Finite 10.0))
     = [0, 1, 3]
   \<and> {t. t < length [0.15, 0.5, 0.5, 0.1 :: real]
          \<and> (fp_less (Finite ([0.15, 0.5, 0.5, 0.1] ! t)) (Finite 0.2)
               \<or> fp_less (Finite ([12, 5, 12, 3] ! t)) (Finite 10.0))} = {0, 1, 3}"
proof -
  have l: "length [12, 5, 12, 3 :: real] = length [0.15, 0.5, 0.5, 0.1 :: real]" by simp
  have w: "where_true (bad_mask [0.15, 0.5, 0.5, 0.1] [12, 5, 12, 3] (Finite 0.2) (Finite 10.0))
     = [0, 1, 3]"
    by (simp add: where_true_def bad_mask_def upt_rec)
  from bad_iff_below_either_threshold [OF l, of "Finite 0.2" "Finite 10.0"]
  have "set (where_true (bad_mask [0.15, 0.5, 0.5, 0.1] [12, 5, 12, 3] (Finite 0.2) (Finite 10.0)))
     = {t. t < length [0.15, 0.5, 0.5, 0.1 :: real]
          \<and> (fp_less (Finite ([0.15, 0.5, 0.5, 0.1] ! t)) (Finite 0.2)
               \<or> fp_less (Finite ([12, 5, 12, 3] ! t)) (Finite 10.0))}"
    by (rule conjunct1)
  then have "{t. t < length [0.15, 0.5, 0.5, 0.1 :: real]
          \<and> (fp_less (Finite ([0.15, 0.5, 0.5, 0.1] ! t)) (Finite 0.2)
               \<or> fp_less (Finite ([12, 5, 12, 3] ! t)) (Finite 10.0))} = set [0, 1, 3]"
    unfolding w by (rule sym)
  then show ?thesis using w by simp
qed

subsection \<open>Summary statistics\<close>

lemma fold_min_Min: "xs \<noteq> [] \<Longrightarrow> fold min (tl xs) (hd xs) = Min (set (xs :: real list))"
proof (cases xs)
  case (Cons a list)
  then show ?thesis using Min.set_eq_fold [of a list] by simp
qed simp

lemma fold_max_Max: "xs \<noteq> [] \<Longrightarrow> fold max (tl xs) (hd xs) = Max (set (xs :: real list))"
proof (cases xs)
  case (Cons a list)
  then show ?thesis using Max.set_eq_fold [of a list] by simp
qed simp

lemma stats_empty: "filter isfinite x = [] \<Longrightarrow> stats x = [(''n'', JInt 0)]"
  by (simp add: stats_def)

lemma stats_nonempty:
  assumes "filter isfinite x \<noteq> []"
  shows "stats x =
     (let xs = map the_real (filter isfinite x)
      in [(''n'', JInt (int (length xs))),
          (''mean'', JFloat (mean xs)),
          (''median'', JFloat (median xs)),
          (''p05'', JFloat (percentile xs 5)),
          (''p25'', JFloat (percentile xs 25)),
          (''p75'', JFloat (percentile xs 75)),
          (''p95'', JFloat (percentile xs 95)),
          (''min'', JFloat (Min (set xs))),
          (''max'', JFloat (Max (set xs)))])"
  using assms by (simp add: stats_def Let_def fold_min_Min fold_max_Max)

lemma stats_example:
  "stats [Finite 0.1, Finite 0.3, Finite 0.5, NaN] =
     [(''n'', JInt 3), (''mean'', JFloat 0.3), (''median'', JFloat 0.3),
      (''p05'', JFloat 0.12), (''p25'', JFloat 0.2), (''p75'', JFloat 0.4),
      (''p95'', JFloat 0.48), (''min'', JFloat 0.1), (''max'', JFloat 0.5)]"
  by (simp add: stats_def mean_def median_def percentile_def Let_def)


text \<open>
  Claim C5. The statistics of an array are those of its finite entries: NaN and the
  infinities are dropped first. With no finite entry the record has the single field
  \<open>n = 0\<close> (and no exception is raised); otherwise it has the count, the mean, the median,
  the 5th, 25th, 75th and 95th percentiles, the minimum and the maximum of the finite
  values. For \<open>[0.1, 0.3, 0.5, NaN]\<close> the count is 3, the minimum 0.1, the maximum 0.5
  and the median 0.3.
\<close>

theorem stats_over_finite_values:
  "stats x = stats (filter isfinite x)
   \<and> (filter isfinite x = [] \<longrightarrow> stats x = [(''n'', JInt 0)])
   \<and> (filter isfinite x \<noteq> [] \<longrightarrow>
        (let xs = map the_real (filter isfinite x)
         in stats x =
            [(''n'', JInt (int (length xs))),
             (''mean'', JFloat (sum_list xs / real (length xs))),
             (''median'', JFloat (median xs)),
             (''p05'', JFloat (percentile xs 5)),
             (''p25'', JFloat (percentile xs 25)),
             (''p75'', JFloat (percentile xs 75)),
             (''p95'', JFloat (percentile xs 95)),
             (''min'', JFloat (Min (set xs))),
             (''max'', JFloat (Max (set xs)))]))
   \<and> map_of (stats [Finite 0.1, Finite 0.3, Finite 0.5, NaN]) ''n'' = Some (JInt 3)
   \<and> map_of (stats [Finite 0.1, Finite 0.3, Finite 0.5, NaN]) ''min'' = Some (JFloat 0.1)
   \<and> map_of (stats [Finite 0.1, Finite 0.3, Finite 0.5, NaN]) ''max'' = Some (JFloat 0.5)
   \<and> map_of (stats [Finite 0.1, Finite 0.3, Finite 0.5, NaN]) ''median'' = Some (JFloat 0.3)"
proof -
  have 1: "stats x = stats (filter isfinite x)"
    by (simp add: stats_def)
  have 2: "filter isfinite x = [] \<longrightarrow> stats x = [(''n'', JInt 0)]"
    by (simp add: stats_empty)
  have 3: "filter isfinite x \<noteq> [] \<longrightarrow>
        (let xs = map the_real (filter isfinite x)
         in stats x =
            [(''n'', JInt (int (length xs))),
             (''mean'', JFloat (sum_list xs / real (length xs))),
             (''median'', JFloat (median xs)),
             (''p05'', JFloat (percentile xs 5)),
             (''p25'', JFloat (percentile xs 25)),
             (''p75'', JFloat (percentile xs 75)),
             (''p95'', JFloat (percentile xs 95)),
             (''min'', JFloat (Min (set xs))),
             (''max'', JFloat (Max (set xs)))])"
    using stats_nonempty [of x] by (simp add: Let_def mean_def)
  have 4: "map_of (stats [Finite 0.1, Finite 0.3, Finite 0.5, NaN]) ''n'' = Some (JInt 3)"
    "map_of (stats [Finite 0.1, Finite 0.3, Finite 0.5, NaN]) ''min'' = Some (JFloat 0.1)"
    "map_of (stats [Finite 0.1, Finite 0.3, Finite 0.5, NaN]) ''max'' = Some (JFloat 0.5)"
    "map_of (stats [Finite 0.1, Finite 0.3, Finite 0.5, NaN]) ''median'' = Some (JFloat 0.3)"
    unfolding stats_example by simp_all
  from 1 2 3 4 show ?thesis by (intro conjI)
qed

theorem stats_over_finite_values_witness:
  "stats [PInf, NaN, NInf] = [(''n'', JInt 0)]
   \<and> stats [Finite 2, PInf, Finite 4] =
       [(''n'', JInt 2), (''mean'', JFloat 3), (''median'', JFloat 3),
        (''p05'', JFloat 2.1), (''p25'', JFloat 2.5), (''p75'', JFloat 3.5),
        (''p95'', JFloat 3.9), (''min'', JFloat 2), (''max'', JFloat 4)]"
proof -
  have e: "filter isfinite [PInf, NaN, NInf] = []" by simp
  have n: "filter isfinite [Finite 2, PInf, Finite 4] \<noteq> []" by simp
  from stats_over_finite_values [of "[PInf, NaN, NInf]"] e
  have a: "stats [PInf, NaN, NInf] = [(''n'', JInt 0)]" by blast
  from stats_over_finite_values [of "[Finite 2, PInf, Finite 4]"] n
  have "let xs = map the_real (filter isfinite [Finite 2, PInf, Finite 4])
         in stats [Finite 2, PInf, Finite 4] =
            [(''n'', JInt (int (length xs))),
             (''mean'', JFloat (sum_list xs / real (length xs))),
             (''median'', JFloat (median xs)),
             (''p05'', JFloat (percentile xs 5)),
             (''p25'', JFloat (percentile xs 25)),
             (''p75'', JFloat (percentile xs 75)),
             (''p95'', JFloat (percentile xs 95)),
             (''min'', JFloat (Min (set xs))),
             (''max'', JFloat (Max (set xs)))]" by blast
  then have b: "stats [Finite 2, PInf, Finite 4] =
       [(''n'', JInt 2), (''mean'', JFloat 3), (''median'', JFloat 3),
        (''p05'', JFloat 2.1), (''p25'', JFloat 2.5), (''p75'', JFloat 3.5),
        (''p95'', JFloat 3.9), (''min'', JFloat 2), (''max'', JFloat 4)]"
    by (simp add: Let_def median_def percentile_def)
  from a b show ?thesis by (rule conjI)
qed

subsection \<open>The default output prefix\<close>

lemma default_output_example:
  "default_output ''/path/to/lh.white'' = Inr ''/path/to/lh_quality''"
  by (simp add: default_output_def prefixed_def bind_err_def Path_def with_suffix_empty_def
      pname_def suffix_of_def rfind_def as_posix_def Let_def)

text \<open>
  Claim C8. The default output prefix should be the input file name followed by
  \<open>_quality\<close>, in the directory of the input file, as the help text of \<^verbatim>\<open>-o\<close> says.
  The code does not compute that: for \<^verbatim>\<open>/path/to/lh.white\<close> the default is
  \<^verbatim>\<open>/path/to/lh_quality\<close>, not \<^verbatim>\<open>/path/to/lh.white_quality\<close>, and
  \<^verbatim>\<open>/path/to/lh.pial\<close> gets the same prefix, so the outputs of the two surfaces of a
  hemisphere overwrite each other.
\<close>

theorem default_output_not_name_plus_quality:
  "default_output ''/path/to/lh.white'' = Inr ''/path/to/lh_quality''
   \<and> default_output ''/path/to/lh.white'' \<noteq> Inr (''/path/to/lh.white'' @ ''_quality'')
   \<and> default_output ''/path/to/lh.pial'' = default_output ''/path/to/lh.white''"
  by (simp add: default_output_def prefixed_def bind_err_def Path_def with_suffix_empty_def
      pname_def suffix_of_def rfind_def as_posix_def Let_def)

lemma join_sep_snoc: "xs \<noteq> [] \<Longrightarrow> join_sep (xs @ [x]) = join_sep xs @ ''/'' @ x"
  by (induction xs rule: join_sep.induct) auto

lemma join_sep_butlast:
  "xs \<noteq> [] \<Longrightarrow> join_sep (butlast xs @ [x]) =
     (if butlast xs = [] then x else join_sep (butlast xs) @ ''/'' @ x)"
  by (simp add: join_sep_snoc)

lemma find_first_less: "find_first ch s = Some k \<Longrightarrow> k < length s"
  by (induction s arbitrary: k) (auto split: if_splits)

lemma suffix_of_split:
  "take (length nm - length (suffix_of nm)) nm @ suffix_of nm = nm"
  by (auto simp: suffix_of_def split: option.splits)


lemma as_posix_replace_last:
  assumes "p_parts p \<noteq> []"
  shows "as_posix (p\<lparr>p_parts := butlast (p_parts p) @ [x]\<rparr>) =
     p_root p @ (if butlast (p_parts p) = [] then [] else join_sep (butlast (p_parts p)) @ ''/'') @ x"
  using assms by (simp add: as_posix_def join_sep_butlast)

lemma as_posix_last:
  assumes "p_parts p \<noteq> []"
  shows "as_posix p =
     p_root p @ (if butlast (p_parts p) = [] then [] else join_sep (butlast (p_parts p)) @ ''/'')
       @ last (p_parts p)"
  using as_posix_replace_last [OF assms, of "last (p_parts p)"] assms by simp

lemma pname_nonempty: "pname p \<noteq> [] \<Longrightarrow> p_parts p \<noteq> [] \<and> pname p = last (p_parts p)"
  by (auto simp: pname_def split: if_splits)

lemma with_suffix_empty_Inr:
  assumes "pname p \<noteq> []"
  shows "with_suffix_empty p =
     Inr (p\<lparr>p_parts := butlast (p_parts p)
            @ [take (length (pname p) - length (suffix_of (pname p))) (pname p)]\<rparr>)"
  using assms by (simp add: with_suffix_empty_def Let_def)

lemma prefixed_eq:
  assumes N: "pname (Path x) \<noteq> []"
  shows "prefixed x tail =
     Inr (take (length (as_posix (Path x)) - length (suffix_of (pname (Path x))))
            (as_posix (Path x)) @ tail)"
proof -
  let ?p = "Path x"
  let ?nm = "pname ?p"
  let ?suf = "suffix_of ?nm"
  let ?stem = "take (length ?nm - length ?suf) ?nm"
  let ?D = "p_root ?p @ (if butlast (p_parts ?p) = [] then []
                          else join_sep (butlast (p_parts ?p)) @ ''/'')"
  from pname_nonempty [OF N] have ne: "p_parts ?p \<noteq> []" and nm: "?nm = last (p_parts ?p)"
    by simp_all
  have a: "as_posix ?p = ?D @ ?stem @ ?suf"
    using as_posix_last [OF ne] by (simp add: nm [symmetric] suffix_of_split)
  have l: "length ?suf \<le> length ?nm"
    using suffix_of_split [of ?nm] by (metis length_append le_add2)
  have "take (length (as_posix ?p) - length ?suf) (as_posix ?p) = ?D @ ?stem"
    unfolding a by simp
  moreover have "prefixed x tail = Inr (?D @ ?stem @ tail)"
    using as_posix_replace_last [OF ne, of ?stem]
    by (simp add: prefixed_def with_suffix_empty_Inr [OF N] bind_err_def)
  ultimately show ?thesis by simp
qed


lemma split_on_nonempty [simp]: "split_on sep s \<noteq> []"
  by (induction s) (auto split: list.splits)

lemma split_on_no_sep: "w \<in> set (split_on sep s) \<Longrightarrow> sep \<notin> set w"
  by (induction s arbitrary: w) (auto split: list.splits if_splits)

lemma split_on_word: "sep \<notin> set w \<Longrightarrow> split_on sep w = [w]"
  by (induction w) auto

lemma split_on_word_sep:
  "sep \<notin> set w \<Longrightarrow> split_on sep (w @ sep # rest) = w # split_on sep rest"
  by (induction w) (auto split: list.splits)

lemma split_on_join:
  "xs \<noteq> [] \<Longrightarrow> \<forall>x \<in> set xs. CHR ''/'' \<notin> set x \<Longrightarrow> split_on CHR ''/'' (join_sep xs) = xs"
proof (induction xs rule: join_sep.induct)
  case 1
  then show ?case by simp
next
  case (2 x)
  then show ?case by (simp add: split_on_word)
next
  case (3 x y ys)
  then show ?case using split_on_word_sep [of "CHR ''/''" x "join_sep (y # ys)"] by simp
qed

lemma Path_parts_good: "x \<in> set (p_parts (Path s)) \<Longrightarrow> good_part x"
  by (auto simp: Path_def Let_def good_part_def dest: split_on_no_sep)

lemma Path_root: "p_root (Path s) = [] \<or> p_root (Path s) = ''/'' \<or> p_root (Path s) = ''//''"
  by (simp add: Path_def Let_def)

lemma join_sep_hd:
  "xs \<noteq> [] \<Longrightarrow> \<forall>x \<in> set xs. good_part x \<Longrightarrow>
   \<exists>ch rest. join_sep xs = ch # rest \<and> ch \<noteq> CHR ''/''"
  by (induction xs rule: join_sep.induct) (auto simp: good_part_def neq_Nil_conv)

lemma Path_root_join:
  assumes r: "r = [] \<or> r = ''/'' \<or> r = ''//''"
    and ne: "xs \<noteq> []" and g: "\<forall>x \<in> set xs. good_part x"
  shows "Path (r @ join_sep xs) = \<lparr>p_root = r, p_parts = xs\<rparr>"
proof -
  from join_sep_hd [OF ne g] obtain ch rest where j: "join_sep xs = ch # rest" "ch \<noteq> CHR ''/''"
    by blast
  have d: "dropWhile (\<lambda>ch. ch = CHR ''/'') (r @ join_sep xs) = join_sep xs"
    using r j by auto
  have s: "split_on CHR ''/'' (join_sep xs) = xs"
    using split_on_join [OF ne] g by (simp add: good_part_def)
  have f: "filter (\<lambda>x. x \<noteq> [] \<and> x \<noteq> ''.'') xs = xs"
    using g by (auto simp: good_part_def filter_id_conv)
  show ?thesis
    unfolding Path_def Let_def d s f using r by auto
qed


text \<open>
  What the code computes in general: the input path (as \<^verbatim>\<open>pathlib\<close> normalises it) with
  the suffix of its file name removed, that is the part from the last dot on, and
  \<open>_quality\<close> appended. The directory is that of the input file; the file name is kept
  whole only when it has no suffix.
\<close>

theorem default_output_strips_suffix:
  assumes N: "pname (Path inp) \<noteq> []"
  shows "\<exists>out. default_output inp = Inr out
     \<and> out = take (length (as_posix (Path inp)) - length (suffix_of (pname (Path inp))))
               (as_posix (Path inp)) @ ''_quality''
     \<and> parent (Path out) = parent (Path inp)
     \<and> pname (Path out) =
         take (length (pname (Path inp)) - length (suffix_of (pname (Path inp))))
           (pname (Path inp)) @ ''_quality''
     \<and> (suffix_of (pname (Path inp)) = [] \<longrightarrow> out = as_posix (Path inp) @ ''_quality'')"
proof -
  let ?p = "Path inp"
  let ?nm = "pname ?p"
  let ?suf = "suffix_of ?nm"
  let ?stem = "take (length ?nm - length ?suf) ?nm"
  let ?out = "take (length (as_posix ?p) - length ?suf) (as_posix ?p) @ ''_quality''"
  let ?xs = "butlast (p_parts ?p) @ [?stem @ ''_quality'']"
  from pname_nonempty [OF N] have ne: "p_parts ?p \<noteq> []" and nm: "?nm = last (p_parts ?p)"
    by simp_all
  have d: "default_output inp = Inr ?out"
    by (simp add: default_output_def prefixed_eq [OF N])
  have a: "as_posix ?p = p_root ?p @ (if butlast (p_parts ?p) = [] then []
              else join_sep (butlast (p_parts ?p)) @ ''/'') @ ?stem @ ?suf"
    using as_posix_last [OF ne] by (simp add: nm [symmetric] suffix_of_split)
  have o: "?out = p_root ?p @ join_sep ?xs"
    unfolding a using ne by (simp add: join_sep_butlast)
  have "good_part ?nm" using ne nm Path_parts_good [of ?nm inp] by simp
  then have "good_part (?stem @ ''_quality'')"
    by (auto simp: good_part_def dest: in_set_takeD)
  moreover have "good_part x" if "x \<in> set (butlast (p_parts ?p))" for x
    using that Path_parts_good [of x inp] by (auto dest: in_set_butlastD)
  ultimately have g: "\<forall>x \<in> set ?xs. good_part x" by auto
  have P: "Path ?out = \<lparr>p_root = p_root ?p, p_parts = ?xs\<rparr>"
    unfolding o by (rule Path_root_join [OF Path_root _ g]) simp
  have "parent (Path ?out) = parent ?p"
    unfolding P by (simp add: parent_def)
  moreover have "pname (Path ?out) = ?stem @ ''_quality''"
    unfolding P by (simp add: pname_def)
  moreover have "?suf = [] \<longrightarrow> ?out = as_posix ?p @ ''_quality''"
    by simp
  ultimately show ?thesis using d by blast
qed

theorem default_output_strips_suffix_witness:
  "default_output ''data/./sub//rh.pial'' = Inr ''data/sub/rh_quality''
   \<and> parent (Path ''data/sub/rh_quality'') = parent (Path ''data/./sub//rh.pial'')
   \<and> default_output ''surf/mesh'' = Inr ''surf/mesh_quality''"
proof -
  have ev: "Path ''data/./sub//rh.pial'' = \<lparr>p_root = [], p_parts = [''data'', ''sub'', ''rh.pial'']\<rparr>"
    "Path ''surf/mesh'' = \<lparr>p_root = [], p_parts = [''surf'', ''mesh'']\<rparr>"
    by (simp_all add: Path_def Let_def)
  have s: "suffix_of ''rh.pial'' = ''.pial''" "suffix_of ''mesh'' = []"
    by (simp_all add: suffix_of_def rfind_def)
  have n1: "pname (Path ''data/./sub//rh.pial'') \<noteq> []" by (simp add: ev pname_def)
  have n2: "pname (Path ''surf/mesh'') \<noteq> []" by (simp add: ev pname_def)
  from default_output_strips_suffix [OF n1]
  have 1: "default_output ''data/./sub//rh.pial'' = Inr ''data/sub/rh_quality''
     \<and> parent (Path ''data/sub/rh_quality'') = parent (Path ''data/./sub//rh.pial'')"
    by (auto simp: ev pname_def s as_posix_def)
  from default_output_strips_suffix [OF n2]
  have 2: "default_output ''surf/mesh'' = Inr ''surf/mesh_quality''"
    by (auto simp: ev pname_def s as_posix_def)
  from 1 2 show ?thesis by simp
qed

subsection \<open>The table of bad faces\<close>

lemma faces_table_rows:
  assumes "faces_table q F = Inr df"
  shows "length df = length F"
    and "length (shape_quality q) = length F" and "length (min_angle q) = length F"
    and "\<And>i. i < length F \<Longrightarrow> col_shape_quality (df ! i) = shape_quality q ! i"
    and "\<And>i. i < length F \<Longrightarrow> col_min_angle (df ! i) = min_angle q ! i"
    and "\<And>i. i < length F \<Longrightarrow> col_face_id (df ! i) = i"
  using assms by (auto simp: faces_table_def Let_def split: if_splits)

lemma flagged_rows:
  assumes T: "faces_table q F = Inr df"
  shows "map (\<lambda>i. df ! i) (where_true (bad_mask (shape_quality q) (min_angle q) t1 t2))
       = filter (\<lambda>r. fp_less (Finite (col_shape_quality r)) t1
                     \<or> fp_less (Finite (col_min_angle r)) t2) df"
proof -
  note R = faces_table_rows [OF T]
  let ?P = "\<lambda>r. fp_less (Finite (col_shape_quality r)) t1 \<or> fp_less (Finite (col_min_angle r)) t2"
  let ?m = "bad_mask (shape_quality q) (min_angle q) t1 t2"
  have lm: "length ?m = length F" using R(2,3) by (simp add: length_bad_mask)
  have "filter (\<lambda>i. ?m ! i) [0..<length F] = filter (?P \<circ> (\<lambda>i. df ! i)) [0..<length F]"
    by (rule filter_cong) (auto simp: bad_mask_nth R)
  then have "map (\<lambda>i. df ! i) (where_true ?m) = filter ?P (map (\<lambda>i. df ! i) [0..<length df])"
    by (simp add: where_true_def lm filter_map R(1))
  then show ?thesis by (simp add: map_nth)
qed

lemma write_if_returns:
  assumes "pname (Path x) \<noteq> []"
  shows "\<exists>fname. prefixed x tail = Inr fname \<and>
     write_if flag x tail c files = Inr (if flag then files @ [(fname, c)] else files)"
  using prefixed_eq [OF assms, of tail] by (simp add: write_if_def bind_err_def)

lemma quality_lengths_more:
  assumes Q: "compute_mesh_quality V F = Inr q"
  shows "length (min_edge q) = length F" and "length (max_edge q) = length F"
    and "length (max_angle q) = length F"
proof -
  from Q obtain e0 e1 e2 a b c where E: "triangle_edges V F = Inr (e0, e1, e2, a, b, c)"
    by (rule compute_mesh_quality_cases)
  note L = triangle_edges_lengths [OF E]
  note la = length_triangle_angles [OF L(4) L(5) L(6)]
  have "Inr q = compute_mesh_quality V F" using Q by simp
  also note compute_mesh_quality_eq [OF E]
  finally show "length (min_edge q) = length F" and "length (max_edge q) = length F"
    and "length (max_angle q) = length F"
    using L la by (auto simp: Let_def zip3_def)
qed

lemma faces_table_of_computed:
  assumes Q: "compute_mesh_quality V F = Inr q"
  shows "\<exists>df. faces_table q F = Inr df"
  using quality_lengths [OF Q] quality_lengths_more [OF Q]
  by (simp add: faces_table_def Let_def)

text \<open>
  Claim C7. Whenever some triangle is bad, the last file \<^verbatim>\<open>save_mesh_quality\<close> writes is
  the bad-faces table: its rows are exactly the flagged rows of the per-face table (as
  a multiset), in ascending order of shape quality and, among equal shape qualities, of
  minimal angle.
\<close>

theorem bad_faces_table_is_flagged_rows_sorted:
  assumes T: "faces_table q F = Inr df"
    and P: "pname (Path out_prefix) \<noteq> []"
    and N: "where_true (bad_mask (shape_quality q) (min_angle q) t1 t2) \<noteq> []"
  shows "\<exists>fname rows w.
      save_mesh_quality q F out_prefix save_csv save_parquet save_npz save_json t1 t2
        = Inr (w @ [(fname, BadFacesCsv rows)])
    \<and> prefixed out_prefix ''_bad_faces.csv'' = Inr fname
    \<and> mset rows = mset (filter (\<lambda>r. fp_less (Finite (col_shape_quality r)) t1
                                   \<or> fp_less (Finite (col_min_angle r)) t2) df)
    \<and> sorted (map (\<lambda>r. (col_shape_quality r, col_min_angle r)) rows)"
proof -
  let ?rows = "sort_values (map (\<lambda>i. df ! i)
            (where_true (bad_mask (shape_quality q) (min_angle q) t1 t2)))"
  obtain w1 where w1: "write_if save_csv out_prefix ''_faces.csv'' (FacesCsv df) [] = Inr w1"
    using write_if_returns [OF P] by blast
  obtain w2 where w2: "write_if save_parquet out_prefix ''_faces.parquet'' (FacesParquet df) w1
      = Inr w2"
    using write_if_returns [OF P] by blast
  obtain w3 where w3: "write_if save_npz out_prefix ''_faces.npz'' (FacesNpz df) w2 = Inr w3"
    using write_if_returns [OF P] by blast
  obtain w4 where w4: "write_if save_json out_prefix ''_summary.json''
      (SummaryJson (summarize_quality q)) w3 = Inr w4"
    using write_if_returns [OF P] by blast
  obtain fname where f: "prefixed out_prefix ''_bad_faces.csv'' = Inr fname"
    "write_if True out_prefix ''_bad_faces.csv'' (BadFacesCsv ?rows) w4
       = Inr (w4 @ [(fname, BadFacesCsv ?rows)])"
    using write_if_returns [OF P, of "''_bad_faces.csv''" True] by auto
  have S: "save_mesh_quality q F out_prefix save_csv save_parquet save_npz save_json t1 t2
        = Inr (w4 @ [(fname, BadFacesCsv ?rows)])"
    using N by (simp add: save_mesh_quality_def T w1 w2 w3 w4 f bind_err_def Let_def)
  have "mset ?rows = mset (filter (\<lambda>r. fp_less (Finite (col_shape_quality r)) t1
                                   \<or> fp_less (Finite (col_min_angle r)) t2) df)"
    by (simp add: sort_values_def flagged_rows [OF T])
  moreover have "sorted (map (\<lambda>r. (col_shape_quality r, col_min_angle r)) ?rows)"
    by (simp add: sort_values_def)
  ultimately show ?thesis using S f(1) by blast
qed

theorem bad_faces_table_is_flagged_rows_sorted_witness:
  "\<exists>df rows.
      faces_table
        \<lparr>area = [1, 1, 1], edge_a = [1, 1, 1], edge_b = [1, 1, 1], edge_c = [1, 1, 1],
         min_edge = [1, 1, 1], max_edge = [1, 1, 1],
         angle_A = [20, 50, 5], angle_B = [60, 60, 60], angle_C = [100, 70, 115],
         min_angle = [20, 50, 5], max_angle = [100, 70, 115],
         shape_quality = [0.1, 0.9, 0.1], radius_ratio = [0.1, 0.9, 0.1],
         aspect_proxy = [Finite 10, Finite (10 / 9), Finite 10]\<rparr>
        [(0, 1, 2), (0, 2, 3), (1, 2, 3)] = Inr df
    \<and> mset rows = mset (filter (\<lambda>r. fp_less (Finite (col_shape_quality r)) (Finite 0.2)
                                   \<or> fp_less (Finite (col_min_angle r)) (Finite 10)) df)
    \<and> sorted (map (\<lambda>r. (col_shape_quality r, col_min_angle r)) rows)
    \<and> map col_face_id rows = [2, 0]"
proof -
  define q where "q = \<lparr>area = [1, 1, 1], edge_a = [1, 1, 1], edge_b = [1, 1, 1], edge_c = [1, 1, 1],
         min_edge = [1, 1, 1], max_edge = [1, 1, 1],
         angle_A = [20, 50, 5], angle_B = [60, 60, 60], angle_C = [100, 70, 115 :: real],
         min_angle = [20, 50, 5], max_angle = [100, 70, 115],
         shape_quality = [0.1, 0.9, 0.1], radius_ratio = [0.1, 0.9, 0.1],
         aspect_proxy = [Finite 10, Finite (10 / 9), Finite 10]\<rparr>"
  define F :: "face list" where "F = [(0, 1, 2), (0, 2, 3), (1, 2, 3)]"
  have bm: "bad_mask (shape_quality q) (min_angle q) (Finite 0.2) (Finite 10) = [True, False, True]"
    by (simp add: q_def bad_mask_def)
  have wt: "where_true [True, False, True] = [0, 2]"
    by (simp add: where_true_def upt_rec)
  have N: "where_true (bad_mask (shape_quality q) (min_angle q) (Finite 0.2) (Finite 10)) \<noteq> []"
    unfolding bm wt by simp
  obtain df where T: "faces_table q F = Inr df"
    by (simp add: faces_table_def q_def F_def)
  have P: "prefixed ''out/lh.q'' tl = Inr (''out/lh'' @ tl)" for tl
    by (simp add: prefixed_def bind_err_def Path_def with_suffix_empty_def pname_def
        suffix_of_def rfind_def as_posix_def Let_def)
  have ids: "map col_face_id (sort_values (map (\<lambda>i. df ! i) [0, 2])) = [2, 0]"
    using T by (auto simp: faces_table_def q_def F_def Let_def sort_values_def upt_rec)
  have S: "save_mesh_quality q F ''out/lh.q'' False False False False (Finite 0.2) (Finite 10)
      = Inr [(''out/lh_bad_faces.csv'', BadFacesCsv (sort_values (map (\<lambda>i. df ! i) [0, 2])))]"
    unfolding save_mesh_quality_def bm wt
    by (simp add: T bind_err_def write_if_def P Let_def)
  have Pn: "pname (Path ''out/lh.q'') \<noteq> []"
    by (simp add: Path_def pname_def Let_def)
  from bad_faces_table_is_flagged_rows_sorted [OF T Pn N, of False False False False]
  obtain fname rows w where
    r: "save_mesh_quality q F ''out/lh.q'' False False False False (Finite 0.2) (Finite 10)
          = Inr (w @ [(fname, BadFacesCsv rows)])"
      "mset rows = mset (filter (\<lambda>r. fp_less (Finite (col_shape_quality r)) (Finite 0.2)
                                   \<or> fp_less (Finite (col_min_angle r)) (Finite 10)) df)"
      "sorted (map (\<lambda>r. (col_shape_quality r, col_min_angle r)) rows)"
    by blast
  from r(1) S have "rows = sort_values (map (\<lambda>i. df ! i) [0, 2])" by simp
  with ids have "map col_face_id rows = [2, 0]" by simp
  with r(2,3) T have "faces_table q F = Inr df
    \<and> mset rows = mset (filter (\<lambda>r. fp_less (Finite (col_shape_quality r)) (Finite 0.2)
                                   \<or> fp_less (Finite (col_min_angle r)) (Finite 10)) df)
    \<and> sorted (map (\<lambda>r. (col_shape_quality r, col_min_angle r)) rows)
    \<and> map col_face_id rows = [2, 0]"
    by (intro conjI)
  then show ?thesis unfolding q_def F_def by (intro exI)
qed

subsection \<open>How a run ends\<close>

lemma compute_mesh_quality_no_faces:
  "compute_mesh_quality V [] =
     Inr \<lparr>area = [], edge_a = [], edge_b = [], edge_c = [], min_edge = [], max_edge = [],
          angle_A = [], angle_B = [], angle_C = [], min_angle = [], max_angle = [],
          shape_quality = [], radius_ratio = [], aspect_proxy = []\<rparr>"
proof -
  have E: "triangle_edges V [] = Inr ([], [], [], [], [], [])"
    by (simp add: triangle_edges_def bind_err_def)
  show ?thesis
    unfolding compute_mesh_quality_eq [OF E]
    by (simp add: Let_def triangle_area_from_edges_def triangle_angles_def zip3_def)
qed

lemma print_summary_no_faces:
  "compute_mesh_quality V [] = Inr q \<Longrightarrow> print_summary (summarize_quality q) = Inl KeyError"
  by (auto simp: compute_mesh_quality_no_faces summarize_quality_def print_summary_def
      getitem_def bind_err_def stats_def)


lemma main_input_not_found:
  "arg_input_surf ag = Some inp \<Longrightarrow> \<not> isfile ev inp \<Longrightarrow>
   main ev ag = SysExit 1 (InputNotFound inp)"
  by (simp add: main_def)

lemma main_input_missing: "arg_input_surf ag = None \<Longrightarrow> main ev ag = Uncaught TypeError"
  by (simp add: main_def)

lemma output_prefix_Inr:
  assumes "arg_output ag \<noteq> None \<or> pname (Path inp) \<noteq> []"
  shows "\<exists>out. (case arg_output ag of None \<Rightarrow> default_output inp | Some out \<Rightarrow> Inr out) = Inr out"
  using assms by (auto simp: default_output_def prefixed_eq split: option.splits)

lemma main_read_failed:
  assumes "arg_input_surf ag = Some inp" and "isfile ev inp"
    and "arg_output ag \<noteq> None \<or> pname (Path inp) \<noteq> []"
    and "read_freesurfer_surf ev inp = Inl e"
  shows "main ev ag = SysExit 1 (ReadFailed e)"
proof -
  from output_prefix_Inr [OF assms(3)] obtain out where
    "(case arg_output ag of None \<Rightarrow> default_output inp | Some out \<Rightarrow> Inr out) = Inr out" ..
  then show ?thesis using assms(1,2,4) by (simp add: main_def uncaught_def)
qed

lemma main_no_faces:
  assumes "arg_input_surf ag = Some inp" and "isfile ev inp"
    and "arg_output ag \<noteq> None \<or> pname (Path inp) \<noteq> []"
    and "read_freesurfer_surf ev inp = Inr (V, [])"
  shows "main ev ag = Uncaught KeyError"
proof -
  from output_prefix_Inr [OF assms(3)] obtain out where
    "(case arg_output ag of None \<Rightarrow> default_output inp | Some out \<Rightarrow> Inr out) = Inr out" ..
  then show ?thesis
    using assms(1,2,4) print_summary_no_faces [OF compute_mesh_quality_no_faces]
    by (simp add: main_def uncaught_def compute_mesh_quality_no_faces)
qed

lemma stats_finite_getitem:
  assumes "xs \<noteq> []"
  shows "getitem (stats (map Finite xs)) ''median'' = Inr (JFloat (median xs))"
    and "getitem (stats (map Finite xs)) ''mean'' = Inr (JFloat (mean xs))"
    and "getitem (stats (map Finite xs)) ''min'' = Inr (JFloat (fold min (tl xs) (hd xs)))"
proof -
  have f: "map the_real (filter isfinite (map Finite xs)) = xs"
    by (induction xs) auto
  show "getitem (stats (map Finite xs)) ''median'' = Inr (JFloat (median xs))"
    and "getitem (stats (map Finite xs)) ''mean'' = Inr (JFloat (mean xs))"
    and "getitem (stats (map Finite xs)) ''min'' = Inr (JFloat (fold min (tl xs) (hd xs)))"
    using assms unfolding stats_def f Let_def by (simp_all add: getitem_def)
qed

lemma print_summary_Inr:
  assumes Q: "compute_mesh_quality V F = Inr q" and F: "F \<noteq> []"
  shows "\<exists>vals. print_summary (summarize_quality q) = Inr vals"
proof -
  note L = quality_lengths [OF Q]
  have s: "shape_quality q \<noteq> []" and m: "min_angle q \<noteq> []"
    using L(8,9) F by auto
  have g: "getitem (summarize_quality q) ''shape_quality'' = Inr (stats (map Finite (shape_quality q)))"
    "getitem (summarize_quality q) ''min_angle'' = Inr (stats (map Finite (min_angle q)))"
    by (simp_all add: summarize_quality_def getitem_def)
  show ?thesis
    unfolding print_summary_def g bind_err_def sum.case
      stats_finite_getitem [OF s] stats_finite_getitem [OF m]
    by simp
qed

lemma main_summary_only_returns:
  assumes "arg_input_surf ag = Some inp" and "isfile ev inp"
    and "arg_output ag \<noteq> None \<or> pname (Path inp) \<noteq> []"
    and "read_freesurfer_surf ev inp = Inr (V, F)"
    and "valid_faces V F" and "F \<noteq> []" and "arg_summary_only ag"
  shows "\<exists>n. main ev ag = Returned n []" and "exit_code (main ev ag) = 0"
proof -
  from output_prefix_Inr [OF assms(3)] obtain out where
    o: "(case arg_output ag of None \<Rightarrow> default_output inp | Some out \<Rightarrow> Inr out) = Inr out" ..
  from compute_mesh_quality_Inr [OF assms(5)] obtain q where
    Q: "compute_mesh_quality V F = Inr q" ..
  from print_summary_Inr [OF Q assms(6)] obtain vals where
    P: "print_summary (summarize_quality q) = Inr vals" ..
  have "main ev ag = Returned (count_true (bad_mask (shape_quality q) (min_angle q)
          (arg_bad_sq_thresh ag) (arg_bad_angle_thresh ag))) []"
    using assms(1,2,4,7) by (simp add: main_def uncaught_def o Q P)
  then show "\<exists>n. main ev ag = Returned n []" and "exit_code (main ev ag) = 0"
    by simp_all
qed

text \<open>
  Claim C9. A run whose input file exists and is read without error should end with
  exit code 0. For a surface without faces it does not: every statistic is the record
  \<open>n = 0\<close>, the summary print looks up \<open>median\<close> in it, and the KeyError ends the run
  with status 1. A run without \<^verbatim>\<open>-i\<close> is accepted by the parser and ends with an
  uncaught TypeError.
\<close>

theorem main_fails_on_surface_without_faces:
  "main \<lparr>isfile = (\<lambda>p. p = ''lh.white''),
         read_freesurfer_surf = (\<lambda>p. Inr ([(0, 0, 0), (1, 0, 0), (0, 1, 0)], []))\<rparr>
        \<lparr>arg_input_surf = Some ''lh.white'', arg_output = None, arg_csv = True,
         arg_parquet = False, arg_npz = True, arg_json = True,
         arg_bad_sq_thresh = Finite 0.2, arg_bad_angle_thresh = Finite 10.0,
         arg_summary_only = False\<rparr>
     = Uncaught KeyError
   \<and> exit_code (main \<lparr>isfile = (\<lambda>p. p = ''lh.white''),
         read_freesurfer_surf = (\<lambda>p. Inr ([(0, 0, 0), (1, 0, 0), (0, 1, 0)], []))\<rparr>
        \<lparr>arg_input_surf = Some ''lh.white'', arg_output = None, arg_csv = True,
         arg_parquet = False, arg_npz = True, arg_json = True,
         arg_bad_sq_thresh = Finite 0.2, arg_bad_angle_thresh = Finite 10.0,
         arg_summary_only = False\<rparr>) = 1
   \<and> exit_code (main \<lparr>isfile = (\<lambda>p. p = ''lh.white''),
         read_freesurfer_surf = (\<lambda>p. Inr ([(0, 0, 0), (1, 0, 0), (0, 1, 0)], []))\<rparr>
        \<lparr>arg_input_surf = None, arg_output = None, arg_csv = True,
         arg_parquet = False, arg_npz = True, arg_json = True,
         arg_bad_sq_thresh = Finite 0.2, arg_bad_angle_thresh = Finite 10.0,
         arg_summary_only = False\<rparr>) = 1"
proof -
  have n: "pname (Path ''lh.white'') \<noteq> []"
    by (simp add: Path_def pname_def Let_def)
  show ?thesis
    by (simp add: main_no_faces n main_input_missing)
qed

end
